theory Spec2Isabelle
  imports Complex_Main "HOL-Library.Word" "HOL-Library.AList" "HOL-Library.Sublist"
begin

section \<open>Common conventions\<close>

text \<open>
  Instants (Go's \<open>time.Time\<close>) are integers counting nanoseconds on one clock; a
  \<open>time.Duration\<close> is a signed 64-bit count of nanoseconds. A Go \<open>error\<close> is a
  \<open>string option\<close>: \<open>None\<close> is \<open>nil\<close>, \<open>Some msg\<close> an error value.
\<close>

type_synonym Time = int
type_synonym Duration = "64 word"
type_synonym error = "string option"

definition Second :: Duration where
  "Second = 1000000000"

definition Minute :: Duration where
  "Minute = 60 * Second"

section \<open>Agent: the stats cache of \<open>gatherStats\<close> (agent.go)\<close>

text \<open>
  The types of package \<open>system\<close> are declared in another package; only the
  fields that \<open>gatherStats\<close> reads or writes are kept. \<open>Metrics\<close> stands for the
  scalar readings that \<open>getSystemStats\<close> returns, \<open>ExtraFs\<close> is the map of extra
  filesystems (an association list here), and \<open>DiskTotal\<close> is a float64 in Go, a real
  number in the model.
\<close>

record FsStats =
  Root :: bool
  DiskTotal :: real

record Stats =
  Metrics :: string
  ExtraFs :: "(string \<times> FsStats) list"

record CombinedData =
  Stats :: Stats
  Info :: string
  Containers :: "string list"

text \<open>The fields of \<open>Agent\<close> that \<open>gatherStats\<close> touches; \<open>data\<close> is a pointer, \<open>None\<close> when nil.\<close>

record Agent =
  fsStats :: "(string \<times> FsStats) list"
  systemInfo :: string
  data :: "CombinedData option"
  updated :: Time
  sshUser :: string

text \<open>
  What one call reads from outside the agent: the clock at \<open>time.Since\<close> and at the later
  \<open>time.Now\<close>, the result of \<open>a.getSystemStats()\<close> and the result of
  \<open>a.dockerManager.getDockerStats()\<close> (\<open>Inl\<close> its error).
\<close>

record GatherEnv =
  nowAtCheck :: Time
  nowAtStore :: Time
  systemStats :: Stats
  dockerStats :: "string + string list"

datatype panic = TypeAssertionFailed | NilPointerDereference

definition cacheTime :: Duration where
  "cacheTime = 60 * Second"

text \<open>Lines 119 to 137: the snapshot that a collection writes into \<open>*a.data\<close>.\<close>

definition collectData :: "GatherEnv \<Rightarrow> Agent \<Rightarrow> CombinedData" where
  "collectData env a =
     (let d0 = \<lparr>Stats = systemStats env, Info = systemInfo a, Containers = []\<rparr>;
          d1 = (case dockerStats env of
                  Inr containerStats \<Rightarrow> d0\<lparr>Containers := containerStats\<rparr>
                | Inl err \<Rightarrow> d0)
      in d1\<lparr>Stats := (Stats d1)\<lparr>ExtraFs :=
              filter (\<lambda>(name, stats). \<not> Root stats \<and> DiskTotal stats > 0) (fsStats a)\<rparr>\<rparr>)"

text \<open>
  \<open>gatherStats\<close>: \<open>ctxUser\<close> is the value stored under the key "user" in the context when
  it is a string (the type assertion panics otherwise). The result is the returned
  snapshot and the agent afterwards. \<open>time.Since\<close> saturates at the ends of the
  Duration range, which does not change its comparison with 60 seconds. The guard of
  the cache requires \<open>a.data\<close> to be non-nil and the collection stores through that
  pointer, so a nil pointer ends in a panic on every path; the model looks at the
  pointer first.
\<close>

definition gatherStats ::
  "GatherEnv \<Rightarrow> string option \<Rightarrow> Agent \<Rightarrow> panic + (CombinedData \<times> Agent)" where
  "gatherStats env ctxUser a =
     (case ctxUser of
        None \<Rightarrow> Inl TypeAssertionFailed
      | Some user \<Rightarrow>
          (case data a of
             None \<Rightarrow> Inl NilPointerDereference
           | Some cached \<Rightarrow>
               if nowAtCheck env - updated a < sint cacheTime \<and> user \<noteq> sshUser a
               then Inr (cached, a)
               else Inr (collectData env a,
                         a\<lparr>data := Some (collectData env a), sshUser := user,
                           updated := nowAtStore env\<rparr>)))"

section \<open>Agent: the liveness probe (health.go)\<close>

text \<open>
  \<open>GetAddress\<close> and \<open>GetNetwork\<close> are defined in another file of the package and are taken as
  parameters, as is the outcome of \<open>net.DialTimeout\<close> (\<open>Inl\<close> its error, \<open>Inr\<close> the
  connection). The probe's effects are the trace of what it does with the network and
  the log.
\<close>

datatype connEvent =
    Dialled string string Duration
  | Closed nat
  | Wrote nat string
  | ReadFrom nat
  | Authenticated nat
  | LoggedError string string

record HealthEnv =
  GetAddress :: "string \<Rightarrow> string"
  GetNetwork :: "string \<Rightarrow> string"
  DialTimeout :: "string \<Rightarrow> string \<Rightarrow> Duration \<Rightarrow> string + nat"

definition Health :: "HealthEnv \<Rightarrow> int \<times> connEvent list" where
  "Health env =
     (let addr = GetAddress env [];
          network = GetNetwork env addr
      in case DialTimeout env network addr (2 * Second) of
           Inl err \<Rightarrow> (1, [Dialled network addr (2 * Second), LoggedError ''Health check failed'' err])
         | Inr conn \<Rightarrow> (0, [Dialled network addr (2 * Second), Closed conn]))"

text \<open>The events that carry data or credentials over a connection.\<close>

fun exchanges :: "connEvent \<Rightarrow> bool" where
  "exchanges (Wrote c bs) = True"
| "exchanges (ReadFrom c) = True"
| "exchanges (Authenticated c) = True"
| "exchanges e = False"

section \<open>Hub: the public-key endpoint and the key pair (hub.go)\<close>

text \<open>\<open>strings.TrimSuffix\<close>.\<close>

definition TrimSuffix :: "string \<Rightarrow> string \<Rightarrow> string" where
  "TrimSuffix s suf = (if suffix suf s then take (length s - length suf) s else s)"

text \<open>
  The hub and the world it acts on: its \<open>pubKey\<close> field, the data directory
  (\<open>h.DataDir()\<close>), the file system as a map from path to content, the number of calls of
  \<open>ed25519.GenerateKey\<close> so far, and the lines logged at level Info.
\<close>

record Hub =
  pubKey :: string
  dataDir :: string
  files :: "string \<rightharpoonup> string"
  keysGenerated :: nat
  infoLog :: "string list"

text \<open>
  The handler of GET /api/beszel/getkey. \<open>e.RequestInfo()\<close> returns a pointer and an
  error, and the handler discards the error: \<open>info\<close> is nil, here \<open>None\<close>, when the
  request information cannot be built, and reading \<open>info.Auth\<close> through it panics.
  \<open>Auth\<close> is a pointer to the authenticated record, \<open>None\<close> when nil. The result is the
  panic, or else the error the handler returns or the JSON response it writes (status
  and body).
\<close>

record RequestInfo =
  Auth :: "string option"

datatype apiError = ForbiddenError string

definition getkey ::
  "Hub \<Rightarrow> string \<Rightarrow> RequestInfo option \<Rightarrow> panic + (apiError + (int \<times> (string \<times> string) list))" where
  "getkey h Version info =
     (case info of
        None \<Rightarrow> Inl NilPointerDereference
      | Some i \<Rightarrow>
          if Auth i = None then Inr (Inl (ForbiddenError ''Forbidden''))
          else Inr (Inr (200, [(''key'', pubKey h), (''v'', Version)])))"

text \<open>
  What \<open>GetSSHKey\<close> gets from the crypto libraries and the operating system:
  the outcome of each call that can fail (\<open>Inl\<close> or \<open>Some\<close> an error). \<open>os.ReadFile\<close>
  succeeds exactly on the paths the file system holds; \<open>os.Create\<close> leaves an empty
  file; a failed write leaves the file as it was.
\<close>

record KeyEnv =
  GenerateKey :: "string + (string \<times> string)"
  MarshalPrivateKey :: "string \<Rightarrow> string + string"
  CreatePrivate :: error
  pemEncode :: "string \<Rightarrow> string + string"
  NewPublicKey :: "string \<Rightarrow> string + string"
  MarshalAuthorizedKey :: "string \<Rightarrow> string"
  CreatePublic :: error
  WritePublic :: error

definition GetSSHKey :: "KeyEnv \<Rightarrow> Hub \<Rightarrow> (string + string) \<times> Hub" where
  "GetSSHKey env h =
     (let privPath = dataDir h @ ''/id_ed25519'';
          pubPath = dataDir h @ ''/id_ed25519.pub''
      in case files h privPath of
           Some existingKey \<Rightarrow>
             (case files h pubPath of
                Some pubKeyFile \<Rightarrow> (Inr existingKey, h\<lparr>pubKey := TrimSuffix pubKeyFile [CHR 0x0A]\<rparr>)
              | None \<Rightarrow> (Inr existingKey, h))
         | None \<Rightarrow>
             (let h1 = h\<lparr>keysGenerated := keysGenerated h + 1\<rparr>
              in case GenerateKey env of
                   Inl err \<Rightarrow> (Inl err, h1)
                 | Inr (pub, privKey) \<Rightarrow>
              (case MarshalPrivateKey env privKey of
                   Inl err \<Rightarrow> (Inl err, h1)
                 | Inr privKeyBytes \<Rightarrow>
              (case CreatePrivate env of
                   Some err \<Rightarrow> (Inl err, h1)
                 | None \<Rightarrow>
              (let h2 = h1\<lparr>files := (files h1)(privPath \<mapsto> [])\<rparr>
               in case pemEncode env privKeyBytes of
                   Inl err \<Rightarrow> (Inl err, h2)
                 | Inr encoded \<Rightarrow>
              (let h3 = h2\<lparr>files := (files h2)(privPath \<mapsto> encoded)\<rparr>
               in case NewPublicKey env pub of
                   Inl err \<Rightarrow> (Inl err, h3)
                 | Inr publicKey \<Rightarrow>
              (let pubKeyBytes = MarshalAuthorizedKey env publicKey;
                   h4 = h3\<lparr>pubKey := TrimSuffix pubKeyBytes [CHR 0x0A]\<rparr>
               in case CreatePublic env of
                   Some err \<Rightarrow> (Inl err, h4)
                 | None \<Rightarrow>
              (let h5 = h4\<lparr>files := (files h4)(pubPath \<mapsto> [])\<rparr>
               in case WritePublic env of
                   Some err \<Rightarrow> (Inl err, h5)
                 | None \<Rightarrow>
              (let h6 = h5\<lparr>files := (files h5)(pubPath \<mapsto> pubKeyBytes),
                          infoLog := infoLog h5 @
                            [''ed25519 SSH key pair generated successfully.'',
                             ''Private key saved to: '' @ privPath,
                             ''Public key saved to: '' @ pubPath]\<rparr>
               in case files h6 privPath of
                   Some existingKey \<Rightarrow> (Inr existingKey, h6)
                 | None \<Rightarrow> (Inl ''open: no such file or directory'', h6))))))))))"

section \<open>Hub: the alert manager (status alerts)\<close>

text \<open>
  Records of the store, with the fields the alert manager reads: of a system its id,
  \<open>GetString("status")\<close> and \<open>GetString("name")\<close>; of an alert rule its id and
  \<open>GetInt("min")\<close>, a Go int of 64 bits.
\<close>

record SystemRecord =
  Id_s :: string
  status :: string
  name :: string

record AlertRecord =
  Id_r :: string
  min_r :: "64 word"

record UserRecord =
  Id_u :: string

record alertTask =
  action :: string
  systemName_t :: string
  alertRecord_t :: AlertRecord
  delay :: Duration

record alertInfo =
  systemName_i :: string
  alertRecord_i :: AlertRecord
  expireTime :: Time

record AlertMessageData =
  UserID :: string
  Title :: string
  Message :: string
  Link :: string
  LinkText :: string

text \<open>
  The application behind \<open>am.app\<close>, and the calls into it and into the libraries:
  \<open>FindAllRecords\<close> on a collection with a hash expression; \<open>ExpandRecord\<close>, which gives the
  map of failed expansions and the expansions it has set on the record (read afterwards
  by \<open>ExpandedOne\<close>); the configured \<open>AppURL\<close>; \<open>url.PathEscape\<close>; and the error with which
  \<open>sendAlert\<close> answers a message.
\<close>

record App =
  FindAllRecords :: "string \<Rightarrow> (string \<times> string) list \<Rightarrow> string + AlertRecord list"
  ExpandRecord :: "AlertRecord \<Rightarrow> string list \<Rightarrow> (string \<times> string) list \<times> (string \<times> UserRecord) list"
  AppURL :: string
  PathEscape :: "string \<Rightarrow> string"
  sendAlertResult :: "AlertMessageData \<Rightarrow> error"

text \<open>
  The alert manager: the pending alerts keyed by rule id (a \<open>sync.Map\<close>, here an
  association list handled only through load, store and delete), the task channel as
  a first-in first-out queue, the stop signal, the messages handed to \<open>sendAlert\<close> in
  order, and the errors logged.
\<close>

record AlertManager =
  pendingAlerts :: "(string \<times> alertInfo) list"
  alertQueue :: "alertTask list"
  stopped :: bool
  sent :: "AlertMessageData list"
  errorLog :: "string list"

definition NewAlertManager :: AlertManager where
  "NewAlertManager = \<lparr>pendingAlerts = [], alertQueue = [], stopped = False, sent = [], errorLog = []\<rparr>"

text \<open>The two emoji, as their UTF-8 bytes: U+2705 and U+1F534.\<close>

definition upEmoji :: string where
  "upEmoji = [CHR 0xE2, CHR 0x9C, CHR 0x85]"

definition downEmoji :: string where
  "downEmoji = [CHR 0xF0, CHR 0x9F, CHR 0x94, CHR 0xB4]"

text \<open>
  Modelled from the spec: \<open>sendAlert\<close>, which is defined in another file of the package.
  Delivery is delegated to an external notification channel; the model records the
  message as sent and returns the error that the channel reports.
\<close>

definition sendAlert :: "App \<Rightarrow> AlertMessageData \<Rightarrow> AlertManager \<Rightarrow> error \<times> AlertManager" where
  "sendAlert app d am = (sendAlertResult app d, am\<lparr>sent := sent am @ [d]\<rparr>)"

definition sendStatusAlert ::
  "App \<Rightarrow> string \<Rightarrow> string \<Rightarrow> AlertRecord \<Rightarrow> AlertManager \<Rightarrow> error \<times> AlertManager" where
  "sendStatusAlert app alertStatus systemName alertRecord am =
     (let emoji = (if alertStatus = ''up'' then upEmoji else downEmoji);
          title = ''Connection to '' @ systemName @ '' is '' @ alertStatus @ '' '' @ emoji;
          message = TrimSuffix title emoji;
          (errs, expand) = ExpandRecord app alertRecord [''user'']
      in if length errs > 0 then (map_of errs ''user'', am)
         else (case map_of expand ''user'' of
                 None \<Rightarrow> (None, am)
               | Some user \<Rightarrow>
                   sendAlert app
                     \<lparr>UserID = Id_u user, Title = title, Message = message,
                      Link = AppURL app @ ''/system/'' @ PathEscape app systemName,
                      LinkText = ''View '' @ systemName\<rparr> am))"

text \<open>Go's \<open>max\<close> on signed 64-bit integers.\<close>

definition max_int :: "64 word \<Rightarrow> 64 word \<Rightarrow> 64 word" where
  "max_int a b = (if sint a < sint b then b else a)"

text \<open>Lines 120 to 122: the delay that \<open>handleSystemDown\<close> computes for a rule.\<close>

definition delayToNotification :: "AlertRecord \<Rightarrow> Duration" where
  "delayToNotification alertRecord = max_int 1 (min_r alertRecord) * Minute + Second * 10"

fun handleSystemDown :: "string \<Rightarrow> AlertRecord list \<Rightarrow> AlertManager \<Rightarrow> AlertManager" where
  "handleSystemDown systemName [] am = am"
| "handleSystemDown systemName (alertRecord # rest) am =
     (if map_of (pendingAlerts am) (Id_r alertRecord) \<noteq> None
      then handleSystemDown systemName rest am
      else handleSystemDown systemName rest
             (am\<lparr>alertQueue := alertQueue am @
                  [\<lparr>action = ''schedule'', systemName_t = systemName,
                    alertRecord_t = alertRecord, delay = delayToNotification alertRecord\<rparr>]\<rparr>))"

fun handleSystemUp :: "App \<Rightarrow> string \<Rightarrow> AlertRecord list \<Rightarrow> AlertManager \<Rightarrow> AlertManager" where
  "handleSystemUp app systemName [] am = am"
| "handleSystemUp app systemName (alertRecord # rest) am =
     (if map_of (pendingAlerts am) (Id_r alertRecord) \<noteq> None
      then handleSystemUp app systemName rest
             (am\<lparr>alertQueue := alertQueue am @
                  [\<lparr>action = ''cancel'', systemName_t = [],
                    alertRecord_t = alertRecord, delay = 0\<rparr>]\<rparr>)
      else (case sendStatusAlert app ''up'' systemName alertRecord am of
              (Some err, am') \<Rightarrow>
                handleSystemUp app systemName rest
                  (am'\<lparr>errorLog := errorLog am' @ [''Failed to send alert: '' @ err]\<rparr>)
            | (None, am') \<Rightarrow> handleSystemUp app systemName rest am'))"

definition getSystemStatusAlerts :: "App \<Rightarrow> string \<Rightarrow> string + AlertRecord list" where
  "getSystemStatusAlerts app systemID =
     (case FindAllRecords app ''alerts'' [(''system'', systemID), (''name'', ''Status'')] of
        Inl err \<Rightarrow> Inl err
      | Inr alertRecords \<Rightarrow> Inr alertRecords)"

definition HandleStatusAlerts ::
  "App \<Rightarrow> string \<Rightarrow> SystemRecord \<Rightarrow> AlertManager \<Rightarrow> error \<times> AlertManager" where
  "HandleStatusAlerts app newStatus oldSystemRecord am =
     (let statusChanged =
            (if newStatus = ''up'' then status oldSystemRecord = ''down''
             else if newStatus = ''down'' then status oldSystemRecord = ''up''
             else False)
      in if \<not> statusChanged then (None, am)
         else (case getSystemStatusAlerts app (Id_s oldSystemRecord) of
                 Inl err \<Rightarrow> (Some err, am)
               | Inr alertRecords \<Rightarrow>
                   if length alertRecords = 0 then (None, am)
                   else if newStatus = ''down''
                     then (None, handleSystemDown (name oldSystemRecord) alertRecords am)
                   else if newStatus = ''up''
                     then (None, handleSystemUp app (name oldSystemRecord) alertRecords am)
                   else (None, am)))"

text \<open>
  The worker, one iteration of its loop for each case of the \<open>select\<close>: a task received
  from the queue at time \<open>now\<close>, and a tick at time \<open>now\<close>, which sweeps the pending
  alerts in the order of the association list.
\<close>

definition processTask :: "Time \<Rightarrow> alertTask \<Rightarrow> AlertManager \<Rightarrow> AlertManager" where
  "processTask now task am =
     (if action task = ''schedule''
      then am\<lparr>pendingAlerts :=
               AList.update (Id_r (alertRecord_t task))
                 \<lparr>systemName_i = systemName_t task, alertRecord_i = alertRecord_t task,
                  expireTime = now + sint (delay task)\<rparr>
                 (pendingAlerts am)\<rparr>
      else if action task = ''cancel''
      then am\<lparr>pendingAlerts := AList.delete (Id_r (alertRecord_t task)) (pendingAlerts am)\<rparr>
      else am)"

fun sweep :: "App \<Rightarrow> Time \<Rightarrow> (string \<times> alertInfo) list \<Rightarrow> AlertManager \<Rightarrow> AlertManager" where
  "sweep app now [] am = am"
| "sweep app now ((key, info) # rest) am =
     (if now > expireTime info
      then (let am' = snd (sendStatusAlert app ''down'' (systemName_i info) (alertRecord_i info) am)
            in sweep app now rest (am'\<lparr>pendingAlerts := AList.delete key (pendingAlerts am')\<rparr>))
      else sweep app now rest am)"

definition processTick :: "App \<Rightarrow> Time \<Rightarrow> AlertManager \<Rightarrow> AlertManager" where
  "processTick app now am = sweep app now (pendingAlerts am) am"

text \<open>
  An execution of the engine is a list of events, each with the time at which it
  happens: a status change reported to \<open>HandleStatusAlerts\<close>, the worker receiving the
  next queued task, the worker's tick, and \<open>Stop\<close>. After \<open>Stop\<close> the worker has returned
  and handles nothing more.
\<close>

datatype event =
    StatusChange Time string SystemRecord
  | WorkerReceive Time
  | SweepTick Time
  | Stop

fun eventTime :: "event \<Rightarrow> Time option" where
  "eventTime (StatusChange t newStatus old) = Some t"
| "eventTime (WorkerReceive t) = Some t"
| "eventTime (SweepTick t) = Some t"
| "eventTime Stop = None"

fun applyEvent :: "App \<Rightarrow> event \<Rightarrow> AlertManager \<Rightarrow> AlertManager" where
  "applyEvent app (StatusChange t newStatus old) am = snd (HandleStatusAlerts app newStatus old am)"
| "applyEvent app (WorkerReceive t) am =
     (if stopped am then am
      else (case alertQueue am of
              [] \<Rightarrow> am
            | task # rest \<Rightarrow> processTask t task (am\<lparr>alertQueue := rest\<rparr>)))"
| "applyEvent app (SweepTick t) am = (if stopped am then am else processTick app t am)"
| "applyEvent app Stop am = am\<lparr>stopped := True\<rparr>"

fun run :: "App \<Rightarrow> event list \<Rightarrow> AlertManager \<Rightarrow> AlertManager" where
  "run app [] am = am"
| "run app (ev # evs) am = run app evs (applyEvent app ev am)"

text \<open>An execution is chronological when the times of its events never decrease.\<close>

definition chronological :: "event list \<Rightarrow> bool" where
  "chronological evs = sorted (List.map_filter eventTime evs)"


definition isDownNotice :: "AlertMessageData \<Rightarrow> bool" where
  "isDownNotice d = suffix downEmoji (Title d)"

section \<open>Notions used to state the properties\<close>

text \<open>The worker receiving and handling a list of tasks in order, all at time \<open>now\<close>.\<close>

fun drainTasks :: "Time \<Rightarrow> alertTask list \<Rightarrow> AlertManager \<Rightarrow> AlertManager" where
  "drainTasks now [] am = am"
| "drainTasks now (task # rest) am = drainTasks now rest (processTask now task am)"

text \<open>
  The user record that \<open>sendStatusAlert\<close> finds for a rule: none when the expansion
  reports a failure or sets no record. And the message it builds for a user.
\<close>

definition resolvedUser :: "App \<Rightarrow> AlertRecord \<Rightarrow> UserRecord option" where
  "resolvedUser app r =
     (case ExpandRecord app r [''user''] of
        (errs, expand) \<Rightarrow> if length errs > 0 then None else map_of expand ''user'')"

definition statusMessage :: "App \<Rightarrow> string \<Rightarrow> string \<Rightarrow> UserRecord \<Rightarrow> AlertMessageData" where
  "statusMessage app alertStatus systemName user =
     \<lparr>UserID = Id_u user,
      Title = ''Connection to '' @ systemName @ '' is '' @ alertStatus @ '' '' @
              (if alertStatus = ''up'' then upEmoji else downEmoji),
      Message = ''Connection to '' @ systemName @ '' is '' @ alertStatus @ '' '',
      Link = AppURL app @ ''/system/'' @ PathEscape app systemName,
      LinkText = ''View '' @ systemName\<rparr>"

text \<open>The tasks that the status handlers put on the queue for a rule.\<close>

definition scheduleTask :: "string \<Rightarrow> AlertRecord \<Rightarrow> alertTask" where
  "scheduleTask systemName r =
     \<lparr>action = ''schedule'', systemName_t = systemName, alertRecord_t = r,
      delay = delayToNotification r\<rparr>"

definition cancelTask :: "AlertRecord \<Rightarrow> alertTask" where
  "cancelTask r = \<lparr>action = ''cancel'', systemName_t = [], alertRecord_t = r, delay = 0\<rparr>"

text \<open>Whether a rule has an entry among the pending alerts.\<close>

definition scheduled :: "AlertManager \<Rightarrow> AlertRecord \<Rightarrow> bool" where
  "scheduled am r = (map_of (pendingAlerts am) (Id_r r) \<noteq> None)"

text \<open>The pending alerts hold one entry for a key at most, each under the id of its rule.\<close>

definition keyedByRule :: "(string \<times> alertInfo) list \<Rightarrow> bool" where
  "keyedByRule p = (distinct (map fst p) \<and> (\<forall>(k, info) \<in> set p. k = Id_r (alertRecord_i info)))"

text \<open>
  The entries that a sweep at time \<open>now\<close> finds expired: those for which it calls
  \<open>sendStatusAlert\<close> with "down" and which it deletes.
\<close>

definition expired :: "Time \<Rightarrow> AlertManager \<Rightarrow> (string \<times> alertInfo) list" where
  "expired now am = filter (\<lambda>(key, info). now > expireTime info) (pendingAlerts am)"

text \<open>
  Whether some sweep of an execution finds an entry of the rule id \<open>key\<close> expired, that
  is, calls \<open>sendStatusAlert\<close> with "down" for that rule.
\<close>

fun firesFor :: "App \<Rightarrow> string \<Rightarrow> event list \<Rightarrow> AlertManager \<Rightarrow> bool" where
  "firesFor app key [] am = False"
| "firesFor app key (ev # evs) am =
     ((case ev of
         SweepTick t \<Rightarrow> \<not> stopped am \<and> key \<in> fst ` set (expired t am)
       | _ \<Rightarrow> False)
      \<or> firesFor app key evs (applyEvent app ev am))"

text \<open>The queued tasks that are about the rule id \<open>key\<close>.\<close>

definition tasksFor :: "string \<Rightarrow> AlertManager \<Rightarrow> alertTask list" where
  "tasksFor key am = filter (\<lambda>task. Id_r (alertRecord_t task) = key) (alertQueue am)"

text \<open>
  An event is foreign to a rule id when it is not a status change of a system that
  has a Status rule of that id.
\<close>

fun foreignTo :: "App \<Rightarrow> string \<Rightarrow> event \<Rightarrow> bool" where
  "foreignTo app key (StatusChange t newStatus old) =
     (case getSystemStatusAlerts app (Id_s old) of
        Inl err \<Rightarrow> True
      | Inr recs \<Rightarrow> key \<notin> Id_r ` set recs)"
| "foreignTo app key ev = True"

text \<open>
  In an execution the cancel task of a rule id is received in time when no sweep later
  than the deadline runs, on a worker that has not stopped, while a cancel task of that
  rule id is waiting in the queue.
\<close>

fun cancelledInTime :: "App \<Rightarrow> string \<Rightarrow> Time \<Rightarrow> event list \<Rightarrow> AlertManager \<Rightarrow> bool" where
  "cancelledInTime app key deadline [] am = True"
| "cancelledInTime app key deadline (ev # evs) am =
     ((case ev of
         SweepTick t \<Rightarrow>
           \<not> stopped am \<and> t > deadline \<longrightarrow>
             (\<forall>task \<in> set (tasksFor key am). action task \<noteq> ''cancel'')
       | _ \<Rightarrow> True)
      \<and> cancelledInTime app key deadline evs (applyEvent app ev am))"

text \<open>
  Notions for the invariants of one outage of a rule \<open>r\<close> that begins at \<open>T0\<close> and whose
  alert cannot expire before the deadline \<open>D\<close>: the entries stored under a rule id; that
  none of them expires before \<open>D\<close>; the state between the down-transition and the
  up-transition, where either the schedule task is waiting and nothing is stored, or
  the entry is stored and no task is waiting; and the state after the up-transition,
  where either the cancel task is waiting, or nothing is stored and no task is waiting.
\<close>

definition entriesOf :: "string \<Rightarrow> AlertManager \<Rightarrow> alertInfo set" where
  "entriesOf key am = {info. (key, info) \<in> set (pendingAlerts am)}"

definition unexpiredUntil :: "string \<Rightarrow> Time \<Rightarrow> AlertManager \<Rightarrow> bool" where
  "unexpiredUntil key D am = (\<forall>info \<in> entriesOf key am. D \<le> expireTime info)"

definition downPhase :: "AlertRecord \<Rightarrow> Time \<Rightarrow> Time \<Rightarrow> AlertManager \<Rightarrow> bool" where
  "downPhase r T0 D am =
     (unexpiredUntil (Id_r r) D am \<and>
      ((entriesOf (Id_r r) am = {} \<and>
        (\<exists>task. tasksFor (Id_r r) am = [task] \<and> action task = ''schedule''
                \<and> D \<le> T0 + sint (delay task)))
       \<or> (entriesOf (Id_r r) am \<noteq> {} \<and> tasksFor (Id_r r) am = [])))"

definition upPhase :: "AlertRecord \<Rightarrow> Time \<Rightarrow> AlertManager \<Rightarrow> bool" where
  "upPhase r D am =
     ((unexpiredUntil (Id_r r) D am \<and>
       (\<exists>task. tasksFor (Id_r r) am = [task] \<and> action task = ''cancel''))
      \<or> (entriesOf (Id_r r) am = {} \<and> tasksFor (Id_r r) am = []))"


section \<open>Example inputs\<close>

text \<open>
  An agent that collected for "hub" at time 0, with a root and an extra filesystem, and
  a call five nanoseconds later on a host without a container runtime.
\<close>

definition exampleAgent :: Agent where
  "exampleAgent =
     \<lparr>fsStats = [(''sda1'', \<lparr>Root = True, DiskTotal = 10\<rparr>), (''sdb1'', \<lparr>Root = False, DiskTotal = 20\<rparr>)],
      systemInfo = ''host'',
      data = Some \<lparr>Stats = \<lparr>Metrics = ''old'', ExtraFs = []\<rparr>, Info = ''host'', Containers = []\<rparr>,
      updated = 0, sshUser = ''hub''\<rparr>"

definition exampleGatherEnv :: GatherEnv where
  "exampleGatherEnv =
     \<lparr>nowAtCheck = 5, nowAtStore = 6,
      systemStats = \<lparr>Metrics = ''new'', ExtraFs = []\<rparr>, dockerStats = Inl ''no docker''\<rparr>"

text \<open>A hub that has loaded a public key and whose data directory is empty.\<close>

definition exampleHub :: Hub where
  "exampleHub = \<lparr>pubKey = ''ssh-ed25519 AAAA'', dataDir = ''/data'', files = Map.empty,
                  keysGenerated = 0, infoLog = []\<rparr>"

text \<open>Libraries and an operating system on which every step of the key generation succeeds.\<close>

definition exampleKeyEnv :: KeyEnv where
  "exampleKeyEnv =
     \<lparr>GenerateKey = Inr (''PUB'', ''PRIV''),
      MarshalPrivateKey = (\<lambda>k. Inr (''block '' @ k)),
      CreatePrivate = None,
      pemEncode = (\<lambda>b. Inr (''pem '' @ b)),
      NewPublicKey = (\<lambda>k. Inr k),
      MarshalAuthorizedKey = (\<lambda>k. ''ssh-ed25519 '' @ k @ [CHR 0x0A]),
      CreatePublic = None,
      WritePublic = None\<rparr>"

text \<open>
  A store with two systems: "sys1" has one Status rule, "rule1", of 5 minutes, whose
  user reference expands to "user1"; "sys2" has one Status rule, "rule2", of 1 minute,
  whose user reference expands to no record. Every delivery succeeds.
\<close>

definition rule1 :: AlertRecord where
  "rule1 = \<lparr>Id_r = ''rule1'', min_r = 5\<rparr>"

definition rule2 :: AlertRecord where
  "rule2 = \<lparr>Id_r = ''rule2'', min_r = 1\<rparr>"

definition exampleApp :: App where
  "exampleApp =
     \<lparr>FindAllRecords = (\<lambda>collection query.
         if query = [(''system'', ''sys1''), (''name'', ''Status'')] then Inr [rule1]
         else if query = [(''system'', ''sys2''), (''name'', ''Status'')] then Inr [rule2]
         else Inr []),
      ExpandRecord = (\<lambda>r keys.
         if r = rule1 then ([], [(''user'', \<lparr>Id_u = ''user1''\<rparr>)]) else ([], [])),
      AppURL = ''http://hub'',
      PathEscape = (\<lambda>s. s),
      sendAlertResult = (\<lambda>d. None)\<rparr>"

definition sys1 :: "string \<Rightarrow> SystemRecord" where
  "sys1 st = \<lparr>Id_s = ''sys1'', status = st, name = ''web''\<rparr>"


text \<open>
  A store with one system, "sys3", that has two Status rules: "ruleA" of 1 minute for
  "userA" and "ruleB" of 5 minutes for "userB". Every delivery succeeds.
\<close>

definition ruleA :: AlertRecord where
  "ruleA = \<lparr>Id_r = ''ruleA'', min_r = 1\<rparr>"

definition ruleB :: AlertRecord where
  "ruleB = \<lparr>Id_r = ''ruleB'', min_r = 5\<rparr>"

definition twoRuleApp :: App where
  "twoRuleApp =
     \<lparr>FindAllRecords = (\<lambda>collection query.
         if query = [(''system'', ''sys3''), (''name'', ''Status'')] then Inr [ruleA, ruleB]
         else Inr []),
      ExpandRecord = (\<lambda>r keys.
         if r = ruleA then ([], [(''user'', \<lparr>Id_u = ''userA''\<rparr>)])
         else if r = ruleB then ([], [(''user'', \<lparr>Id_u = ''userB''\<rparr>)])
         else ([], [])),
      AppURL = ''http://hub'',
      PathEscape = (\<lambda>s. s),
      sendAlertResult = (\<lambda>d. None)\<rparr>"

definition sys3 :: "string \<Rightarrow> SystemRecord" where
  "sys3 st = \<lparr>Id_s = ''sys3'', status = st, name = ''mail''\<rparr>"

text \<open>
  A store with one system, "sys4", that has one Status rule, "ruleC", of 153722868
  minutes for "userC". Every delivery succeeds.
\<close>

definition ruleC :: AlertRecord where
  "ruleC = \<lparr>Id_r = ''ruleC'', min_r = 153722868\<rparr>"

definition longRuleApp :: App where
  "longRuleApp =
     \<lparr>FindAllRecords = (\<lambda>collection query.
         if query = [(''system'', ''sys4''), (''name'', ''Status'')] then Inr [ruleC]
         else Inr []),
      ExpandRecord = (\<lambda>r keys.
         if r = ruleC then ([], [(''user'', \<lparr>Id_u = ''userC''\<rparr>)]) else ([], [])),
      AppURL = ''http://hub'',
      PathEscape = (\<lambda>s. s),
      sendAlertResult = (\<lambda>d. None)\<rparr>"

definition sys4 :: "string \<Rightarrow> SystemRecord" where
  "sys4 st = \<lparr>Id_s = ''sys4'', status = st, name = ''backup''\<rparr>"


section \<open>Theorems\<close>

subsection \<open>Agent cache\<close>

lemma sint_cacheTime: "sint cacheTime = 60000000000"
  by (simp add: cacheTime_def Second_def)

text \<open>
  C1 (as stated, refuted). The claim says that a second call within 60 seconds by the
  same requester returns the cached snapshot, and that a different requester forces a
  fresh collection. On the code it is the other way round: one second after a collection
  for "hub", a call by "hub" collects again, and a call by "other" gets the cache.
\<close>

theorem gatherStats_same_user_counterexample:
  "gatherStats
     \<lparr>nowAtCheck = 1000000000, nowAtStore = 1000000001,
      systemStats = \<lparr>Metrics = ''new'', ExtraFs = []\<rparr>, dockerStats = Inr []\<rparr>
     (Some ''hub'')
     \<lparr>fsStats = [], systemInfo = ''host'',
      data = Some \<lparr>Stats = \<lparr>Metrics = ''old'', ExtraFs = []\<rparr>, Info = ''host'', Containers = []\<rparr>,
      updated = 0, sshUser = ''hub''\<rparr>
   = Inr (\<lparr>Stats = \<lparr>Metrics = ''new'', ExtraFs = []\<rparr>, Info = ''host'', Containers = []\<rparr>,
          \<lparr>fsStats = [], systemInfo = ''host'',
           data = Some \<lparr>Stats = \<lparr>Metrics = ''new'', ExtraFs = []\<rparr>, Info = ''host'', Containers = []\<rparr>,
           updated = 1000000001, sshUser = ''hub''\<rparr>)
   \<and> gatherStats
     \<lparr>nowAtCheck = 1000000000, nowAtStore = 1000000001,
      systemStats = \<lparr>Metrics = ''new'', ExtraFs = []\<rparr>, dockerStats = Inr []\<rparr>
     (Some ''other'')
     \<lparr>fsStats = [], systemInfo = ''host'',
      data = Some \<lparr>Stats = \<lparr>Metrics = ''old'', ExtraFs = []\<rparr>, Info = ''host'', Containers = []\<rparr>,
      updated = 0, sshUser = ''hub''\<rparr>
   = Inr (\<lparr>Stats = \<lparr>Metrics = ''old'', ExtraFs = []\<rparr>, Info = ''host'', Containers = []\<rparr>,
          \<lparr>fsStats = [], systemInfo = ''host'',
           data = Some \<lparr>Stats = \<lparr>Metrics = ''old'', ExtraFs = []\<rparr>, Info = ''host'', Containers = []\<rparr>,
           updated = 0, sshUser = ''hub''\<rparr>)"
  by (simp add: gatherStats_def collectData_def sint_cacheTime)

text \<open>
  C1 (amended). With a snapshot buffer present: a call made less than 60 seconds after
  the last collection by a requester whose identity differs from the recorded one
  returns the cached snapshot and leaves the agent as it was; a call by the recorded
  identity, also within the 60 seconds, like any call 60 seconds or more after the
  last collection, collects afresh, records the requester and the time, and returns
  the new snapshot.
\<close>

theorem gatherStats_cache_policy:
  assumes "data a = Some cached"
  shows "(nowAtCheck env - updated a < 60000000000 \<and> user \<noteq> sshUser a \<longrightarrow>
            gatherStats env (Some user) a = Inr (cached, a))
       \<and> (user = sshUser a \<or> 60000000000 \<le> nowAtCheck env - updated a \<longrightarrow>
            gatherStats env (Some user) a =
              Inr (collectData env a,
                   a\<lparr>data := Some (collectData env a), sshUser := user,
                     updated := nowAtStore env\<rparr>))"
  using assms by (auto simp: gatherStats_def sint_cacheTime)

theorem gatherStats_cache_policy_witness:
  "gatherStats exampleGatherEnv (Some ''other'') exampleAgent
     = Inr (\<lparr>Stats = \<lparr>Metrics = ''old'', ExtraFs = []\<rparr>, Info = ''host'', Containers = []\<rparr>, exampleAgent)
   \<and> gatherStats exampleGatherEnv (Some ''hub'') exampleAgent
     = Inr (\<lparr>Stats = \<lparr>Metrics = ''new'', ExtraFs = [(''sdb1'', \<lparr>Root = False, DiskTotal = 20\<rparr>)]\<rparr>,
             Info = ''host'', Containers = []\<rparr>,
            exampleAgent\<lparr>data := Some \<lparr>Stats = \<lparr>Metrics = ''new'',
                                   ExtraFs = [(''sdb1'', \<lparr>Root = False, DiskTotal = 20\<rparr>)]\<rparr>,
                                   Info = ''host'', Containers = []\<rparr>,
                         sshUser := ''hub'', updated := 6\<rparr>)"
proof -
  have d: "data exampleAgent = Some \<lparr>Stats = \<lparr>Metrics = ''old'', ExtraFs = []\<rparr>, Info = ''host'', Containers = []\<rparr>"
    by (simp add: exampleAgent_def)
  have c: "nowAtCheck exampleGatherEnv - updated exampleAgent < 60000000000 \<and> ''other'' \<noteq> sshUser exampleAgent"
    by (simp add: exampleAgent_def exampleGatherEnv_def)
  have s: "''hub'' = sshUser exampleAgent" by (simp add: exampleAgent_def)
  have f: "collectData exampleGatherEnv exampleAgent
      = \<lparr>Stats = \<lparr>Metrics = ''new'', ExtraFs = [(''sdb1'', \<lparr>Root = False, DiskTotal = 20\<rparr>)]\<rparr>,
             Info = ''host'', Containers = []\<rparr>"
    by (simp add: collectData_def exampleAgent_def exampleGatherEnv_def)
  have n: "nowAtStore exampleGatherEnv = 6" by (simp add: exampleGatherEnv_def)
  have a: "gatherStats exampleGatherEnv (Some ''other'') exampleAgent
     = Inr (\<lparr>Stats = \<lparr>Metrics = ''old'', ExtraFs = []\<rparr>, Info = ''host'', Containers = []\<rparr>, exampleAgent)"
    using gatherStats_cache_policy [OF d, of exampleGatherEnv "''other''"] c by blast
  have b: "gatherStats exampleGatherEnv (Some ''hub'') exampleAgent
     = Inr (collectData exampleGatherEnv exampleAgent,
            exampleAgent\<lparr>data := Some (collectData exampleGatherEnv exampleAgent), sshUser := ''hub'',
                     updated := nowAtStore exampleGatherEnv\<rparr>)"
    using gatherStats_cache_policy [OF d, of exampleGatherEnv "''hub''"] s by blast
  show ?thesis using a b unfolding f n by (rule conjI)
qed

subsection \<open>Liveness probe\<close>

text \<open>
  C8. \<open>Health\<close> returns exit code 0 exactly when dialling the configured network and
  address with the 2-second timeout succeeds, and 1 otherwise; apart from the dial it
  only closes the connection or logs the failure: it writes nothing, reads nothing and
  does not authenticate.
\<close>

theorem Health_exit_code:
  "(fst (Health env) = 0 \<longleftrightarrow>
      (\<exists>conn. DialTimeout env (GetNetwork env (GetAddress env [])) (GetAddress env []) (2 * Second) = Inr conn))
   \<and> (fst (Health env) \<noteq> 0 \<longrightarrow> fst (Health env) = 1)
   \<and> (\<forall>e \<in> set (snd (Health env)). \<not> exchanges e)"
  by (auto simp: Health_def Let_def split: sum.splits)

theorem Health_exit_code_witness:
  "fst (Health \<lparr>GetAddress = (\<lambda>a. '':45876''), GetNetwork = (\<lambda>a. ''tcp''),
                DialTimeout = (\<lambda>n a t. Inr 7)\<rparr>) = 0
   \<and> fst (Health \<lparr>GetAddress = (\<lambda>a. ''127.0.0.1:65535''), GetNetwork = (\<lambda>a. ''tcp''),
                DialTimeout = (\<lambda>n a t. Inl ''connection refused'')\<rparr>) = 1"
proof -
  have a: "fst (Health \<lparr>GetAddress = (\<lambda>a. '':45876''), GetNetwork = (\<lambda>a. ''tcp''),
                DialTimeout = (\<lambda>n a t. Inr 7)\<rparr>) = 0"
    using Health_exit_code [of "\<lparr>GetAddress = (\<lambda>a. '':45876''), GetNetwork = (\<lambda>a. ''tcp''),
                DialTimeout = (\<lambda>n a t. Inr 7)\<rparr>"]
    by simp
  have b: "fst (Health \<lparr>GetAddress = (\<lambda>a. ''127.0.0.1:65535''), GetNetwork = (\<lambda>a. ''tcp''),
                DialTimeout = (\<lambda>n a t. Inl ''connection refused'')\<rparr>) = 1"
    using Health_exit_code [of "\<lparr>GetAddress = (\<lambda>a. ''127.0.0.1:65535''), GetNetwork = (\<lambda>a. ''tcp''),
                DialTimeout = (\<lambda>n a t. Inl ''connection refused'')\<rparr>"]
    by simp
  show ?thesis using a b by simp
qed

subsection \<open>Public-key endpoint\<close>

text \<open>
  With the request information at hand the handler of /api/beszel/getkey returns the
  Forbidden error to a request without authentication, and it writes the key only to
  an authenticated request, whatever the request information.
\<close>

lemma getkey_with_info:
  "(Auth i = None \<longrightarrow> getkey h v (Some i) = Inr (Inl (ForbiddenError ''Forbidden'')))
   \<and> (Auth i \<noteq> None \<longrightarrow> getkey h v (Some i) = Inr (Inr (200, [(''key'', pubKey h), (''v'', v)])))
   \<and> (\<forall>body. getkey h v info = Inr (Inr body) \<longrightarrow>
         (\<exists>j. info = Some j \<and> Auth j \<noteq> None) \<and> body = (200, [(''key'', pubKey h), (''v'', v)]))"
  by (auto simp: getkey_def split: option.splits if_splits)

text \<open>
  C9 (defect of the code). The claim has every request without authentication answered
  with the Forbidden error. A request for which \<open>e.RequestInfo()\<close> fails, as it does
  when the body cannot be parsed, leaves \<open>info\<close> nil; the handler has discarded the
  error and reads \<open>info.Auth\<close>: it panics with a nil pointer dereference instead of
  returning the Forbidden error. No key is written.
\<close>

theorem getkey_nil_info_panics:
  "getkey exampleHub ''0.10.2'' None = Inl NilPointerDereference"
  by (simp add: getkey_def)

subsection \<open>Key pair\<close>

lemma GetSSHKey_existing:
  assumes "files h (dataDir h @ ''/id_ed25519'') = Some k"
  shows "GetSSHKey env h =
           (Inr k, case files h (dataDir h @ ''/id_ed25519.pub'') of
                     Some p \<Rightarrow> h\<lparr>pubKey := TrimSuffix p [CHR 0x0A]\<rparr>
                   | None \<Rightarrow> h)"
  using assms by (simp add: GetSSHKey_def Let_def split: option.splits)

lemma GetSSHKey_absent_counts:
  assumes "files h (dataDir h @ ''/id_ed25519'') = None"
  shows "keysGenerated (snd (GetSSHKey env h)) = keysGenerated h + 1"
  using assms by (simp add: GetSSHKey_def Let_def split: option.splits sum.splits prod.splits)

lemma GetSSHKey_generator_fails:
  assumes "files h (dataDir h @ ''/id_ed25519'') = None" "GenerateKey env = Inl err"
  shows "GetSSHKey env h = (Inl err, h\<lparr>keysGenerated := keysGenerated h + 1\<rparr>)"
  using assms by (simp add: GetSSHKey_def Let_def)

lemma GetSSHKey_generated:
  assumes "files h (dataDir h @ ''/id_ed25519'') = None"
      and "GenerateKey env = Inr (pub, privKey)"
      and "MarshalPrivateKey env privKey = Inr privKeyBytes"
      and "CreatePrivate env = None"
      and "pemEncode env privKeyBytes = Inr encoded"
      and "NewPublicKey env pub = Inr publicKey"
      and "CreatePublic env = None"
      and "WritePublic env = None"
  shows "GetSSHKey env h =
           (Inr encoded,
            h\<lparr>keysGenerated := keysGenerated h + 1,
              files := (files h)(dataDir h @ ''/id_ed25519'' \<mapsto> encoded,
                                 dataDir h @ ''/id_ed25519.pub'' \<mapsto> MarshalAuthorizedKey env publicKey),
              pubKey := TrimSuffix (MarshalAuthorizedKey env publicKey) [CHR 0x0A],
              infoLog := infoLog h @
                [''ed25519 SSH key pair generated successfully.'',
                 ''Private key saved to: '' @ dataDir h @ ''/id_ed25519'',
                 ''Public key saved to: '' @ dataDir h @ ''/id_ed25519.pub'']\<rparr>)"
  using assms by (simp add: GetSSHKey_def Let_def fun_upd_twist)

text \<open>
  C2 (as stated, refuted). The claim lets a key pair be generated only when both files
  are absent, and has the public half loaded in every case. With the private key file
  absent and a public key file present, the code generates a key pair, returns its
  private half and overwrites the public key file; with the private key file present
  and the public key file absent, it returns the private key and loads no public half.
\<close>

theorem GetSSHKey_counterexample:
  "GetSSHKey exampleKeyEnv
      \<lparr>pubKey = [], dataDir = ''/data'',
       files = [''/data/id_ed25519.pub'' \<mapsto> ''ssh-ed25519 OLD''],
       keysGenerated = 0, infoLog = []\<rparr>
     = (Inr ''pem block PRIV'',
        \<lparr>pubKey = ''ssh-ed25519 PUB'', dataDir = ''/data'',
         files = [''/data/id_ed25519'' \<mapsto> ''pem block PRIV'',
                  ''/data/id_ed25519.pub'' \<mapsto> ''ssh-ed25519 PUB'' @ [CHR 0x0A]],
         keysGenerated = 1,
         infoLog = [''ed25519 SSH key pair generated successfully.'',
                    ''Private key saved to: /data/id_ed25519'',
                    ''Public key saved to: /data/id_ed25519.pub'']\<rparr>)
   \<and> GetSSHKey exampleKeyEnv
      \<lparr>pubKey = [], dataDir = ''/data'',
       files = [''/data/id_ed25519'' \<mapsto> ''pem OLD''],
       keysGenerated = 0, infoLog = []\<rparr>
     = (Inr ''pem OLD'',
        \<lparr>pubKey = [], dataDir = ''/data'',
         files = [''/data/id_ed25519'' \<mapsto> ''pem OLD''],
         keysGenerated = 0, infoLog = []\<rparr>)"
proof -
  have n: "TrimSuffix (''ssh-ed25519 PUB'' @ [CHR 0x0A]) [CHR 0x0A] = ''ssh-ed25519 PUB''"
    by (simp add: TrimSuffix_def suffix_def)
  have f: "[''/data/id_ed25519.pub'' \<mapsto> ''ssh-ed25519 OLD'']
             (''/data/id_ed25519'' \<mapsto> ''pem block PRIV'',
              ''/data/id_ed25519.pub'' \<mapsto> ''ssh-ed25519 PUB'' @ [CHR 0x0A])
         = [''/data/id_ed25519'' \<mapsto> ''pem block PRIV'',
            ''/data/id_ed25519.pub'' \<mapsto> ''ssh-ed25519 PUB'' @ [CHR 0x0A]]"
    by (simp add: fun_eq_iff)
  have a: "GetSSHKey exampleKeyEnv
      \<lparr>pubKey = [], dataDir = ''/data'',
       files = [''/data/id_ed25519.pub'' \<mapsto> ''ssh-ed25519 OLD''],
       keysGenerated = 0, infoLog = []\<rparr>
     = (Inr ''pem block PRIV'',
        \<lparr>pubKey = ''ssh-ed25519 PUB'', dataDir = ''/data'',
         files = [''/data/id_ed25519'' \<mapsto> ''pem block PRIV'',
                  ''/data/id_ed25519.pub'' \<mapsto> ''ssh-ed25519 PUB'' @ [CHR 0x0A]],
         keysGenerated = 1,
         infoLog = [''ed25519 SSH key pair generated successfully.'',
                    ''Private key saved to: /data/id_ed25519'',
                    ''Public key saved to: /data/id_ed25519.pub'']\<rparr>)"
    using n f
    by (subst GetSSHKey_generated [where pub = "''PUB''" and privKey = "''PRIV''"
          and privKeyBytes = "''block PRIV''" and encoded = "''pem block PRIV''"
          and publicKey = "''PUB''"])
       (simp_all add: exampleKeyEnv_def)
  have b: "GetSSHKey exampleKeyEnv
      \<lparr>pubKey = [], dataDir = ''/data'',
       files = [''/data/id_ed25519'' \<mapsto> ''pem OLD''],
       keysGenerated = 0, infoLog = []\<rparr>
     = (Inr ''pem OLD'',
        \<lparr>pubKey = [], dataDir = ''/data'',
         files = [''/data/id_ed25519'' \<mapsto> ''pem OLD''],
         keysGenerated = 0, infoLog = []\<rparr>)"
    by (subst GetSSHKey_existing [where k = "''pem OLD''"]) simp_all
  show ?thesis using a b by (rule conjI)
qed

text \<open>
  C2 (amended). \<open>GetSSHKey\<close> calls the key generator exactly when the private key
  file cannot be read, whatever the state of the public key file. If the generator
  fails, its error is returned, no file is written and no public half is loaded. If
  the generator and every later step succeed, the new private key is written to the
  private key file and returned, the new public key is written to the public key file,
  and the public half is loaded. When the private key file can be read, its content is
  returned, no file is changed, and the public half is loaded from the public key file
  when that file can be read and left as it was otherwise.
\<close>

theorem GetSSHKey_policy:
  "(keysGenerated (snd (GetSSHKey env h)) \<noteq> keysGenerated h \<longleftrightarrow>
      files h (dataDir h @ ''/id_ed25519'') = None)
   \<and> (\<forall>k. files h (dataDir h @ ''/id_ed25519'') = Some k \<longrightarrow>
         fst (GetSSHKey env h) = Inr k
         \<and> files (snd (GetSSHKey env h)) = files h
         \<and> pubKey (snd (GetSSHKey env h)) =
             (case files h (dataDir h @ ''/id_ed25519.pub'') of
                Some p \<Rightarrow> TrimSuffix p [CHR 0x0A]
              | None \<Rightarrow> pubKey h))
   \<and> (files h (dataDir h @ ''/id_ed25519'') = None \<longrightarrow>
        (\<forall>err. GenerateKey env = Inl err \<longrightarrow>
           fst (GetSSHKey env h) = Inl err
           \<and> files (snd (GetSSHKey env h)) = files h
           \<and> pubKey (snd (GetSSHKey env h)) = pubKey h)
      \<and> (\<forall>pub privKey privKeyBytes encoded publicKey.
           GenerateKey env = Inr (pub, privKey)
           \<and> MarshalPrivateKey env privKey = Inr privKeyBytes
           \<and> CreatePrivate env = None
           \<and> pemEncode env privKeyBytes = Inr encoded
           \<and> NewPublicKey env pub = Inr publicKey
           \<and> CreatePublic env = None
           \<and> WritePublic env = None \<longrightarrow>
           fst (GetSSHKey env h) = Inr encoded
           \<and> files (snd (GetSSHKey env h)) =
               (files h)(dataDir h @ ''/id_ed25519'' \<mapsto> encoded,
                         dataDir h @ ''/id_ed25519.pub'' \<mapsto> MarshalAuthorizedKey env publicKey)
           \<and> pubKey (snd (GetSSHKey env h)) =
               TrimSuffix (MarshalAuthorizedKey env publicKey) [CHR 0x0A]))"
proof (cases "files h (dataDir h @ ''/id_ed25519'')")
  case None
  have a: "keysGenerated (snd (GetSSHKey env h)) \<noteq> keysGenerated h"
    using GetSSHKey_absent_counts [OF None, of env] by simp
  have b: "fst (GetSSHKey env h) = Inl err
           \<and> files (snd (GetSSHKey env h)) = files h
           \<and> pubKey (snd (GetSSHKey env h)) = pubKey h"
    if "GenerateKey env = Inl err" for err
    using GetSSHKey_generator_fails [OF None that] by simp
  have c: "fst (GetSSHKey env h) = Inr encoded
           \<and> files (snd (GetSSHKey env h)) =
               (files h)(dataDir h @ ''/id_ed25519'' \<mapsto> encoded,
                         dataDir h @ ''/id_ed25519.pub'' \<mapsto> MarshalAuthorizedKey env publicKey)
           \<and> pubKey (snd (GetSSHKey env h)) =
               TrimSuffix (MarshalAuthorizedKey env publicKey) [CHR 0x0A]"
    if "GenerateKey env = Inr (pub, privKey)"
       "MarshalPrivateKey env privKey = Inr privKeyBytes"
       "CreatePrivate env = None"
       "pemEncode env privKeyBytes = Inr encoded"
       "NewPublicKey env pub = Inr publicKey"
       "CreatePublic env = None"
       "WritePublic env = None"
    for pub privKey privKeyBytes encoded publicKey
    using GetSSHKey_generated [OF None that] by simp
  have b': "\<forall>err. GenerateKey env = Inl err \<longrightarrow>
           fst (GetSSHKey env h) = Inl err
           \<and> files (snd (GetSSHKey env h)) = files h
           \<and> pubKey (snd (GetSSHKey env h)) = pubKey h"
    by (intro allI impI) (rule b)
  have c': "\<forall>pub privKey privKeyBytes encoded publicKey.
           GenerateKey env = Inr (pub, privKey)
           \<and> MarshalPrivateKey env privKey = Inr privKeyBytes
           \<and> CreatePrivate env = None
           \<and> pemEncode env privKeyBytes = Inr encoded
           \<and> NewPublicKey env pub = Inr publicKey
           \<and> CreatePublic env = None
           \<and> WritePublic env = None \<longrightarrow>
           fst (GetSSHKey env h) = Inr encoded
           \<and> files (snd (GetSSHKey env h)) =
               (files h)(dataDir h @ ''/id_ed25519'' \<mapsto> encoded,
                         dataDir h @ ''/id_ed25519.pub'' \<mapsto> MarshalAuthorizedKey env publicKey)
           \<and> pubKey (snd (GetSSHKey env h)) =
               TrimSuffix (MarshalAuthorizedKey env publicKey) [CHR 0x0A]"
    by (intro allI impI, elim conjE, rule c)
  show ?thesis using None a b' c' by simp
next
  case (Some k)
  then show ?thesis using GetSSHKey_existing [OF Some, of env]
    by (simp split: option.splits)
qed

theorem GetSSHKey_policy_witness:
  "fst (GetSSHKey exampleKeyEnv
      (exampleHub\<lparr>pubKey := [], files := [''/data/id_ed25519'' \<mapsto> ''pem OLD'',
                      ''/data/id_ed25519.pub'' \<mapsto> ''ssh-ed25519 OLD'' @ [CHR 0x0A]]\<rparr>)) = Inr ''pem OLD''
   \<and> pubKey (snd (GetSSHKey exampleKeyEnv
      (exampleHub\<lparr>pubKey := [], files := [''/data/id_ed25519'' \<mapsto> ''pem OLD'',
                      ''/data/id_ed25519.pub'' \<mapsto> ''ssh-ed25519 OLD'' @ [CHR 0x0A]]\<rparr>))) = ''ssh-ed25519 OLD''
   \<and> fst (GetSSHKey exampleKeyEnv exampleHub) = Inr ''pem block PRIV''
   \<and> files (snd (GetSSHKey exampleKeyEnv exampleHub)) ''/data/id_ed25519'' = Some ''pem block PRIV''
   \<and> files (snd (GetSSHKey exampleKeyEnv exampleHub)) ''/data/id_ed25519.pub''
        = Some (''ssh-ed25519 PUB'' @ [CHR 0x0A])
   \<and> pubKey (snd (GetSSHKey exampleKeyEnv exampleHub)) = ''ssh-ed25519 PUB''"
proof -
  let ?h = "exampleHub\<lparr>pubKey := [], files := [''/data/id_ed25519'' \<mapsto> ''pem OLD'',
                      ''/data/id_ed25519.pub'' \<mapsto> ''ssh-ed25519 OLD'' @ [CHR 0x0A]]\<rparr>"
  have a: "fst (GetSSHKey exampleKeyEnv ?h) = Inr ''pem OLD''
     \<and> pubKey (snd (GetSSHKey exampleKeyEnv ?h)) = ''ssh-ed25519 OLD''"
    using GetSSHKey_policy [of exampleKeyEnv ?h]
    by (simp add: TrimSuffix_def suffix_def exampleHub_def)
  have p: "files exampleHub (dataDir exampleHub @ ''/id_ed25519'') = None"
    by (simp add: exampleHub_def)
  have e: "GenerateKey exampleKeyEnv = Inr (''PUB'', ''PRIV'')
           \<and> MarshalPrivateKey exampleKeyEnv ''PRIV'' = Inr ''block PRIV''
           \<and> CreatePrivate exampleKeyEnv = None
           \<and> pemEncode exampleKeyEnv ''block PRIV'' = Inr ''pem block PRIV''
           \<and> NewPublicKey exampleKeyEnv ''PUB'' = Inr ''PUB''
           \<and> CreatePublic exampleKeyEnv = None
           \<and> WritePublic exampleKeyEnv = None"
    by (simp add: exampleKeyEnv_def)
  have g: "fst (GetSSHKey exampleKeyEnv exampleHub) = Inr ''pem block PRIV''
           \<and> files (snd (GetSSHKey exampleKeyEnv exampleHub)) =
               (files exampleHub)(dataDir exampleHub @ ''/id_ed25519'' \<mapsto> ''pem block PRIV'',
                         dataDir exampleHub @ ''/id_ed25519.pub'' \<mapsto> MarshalAuthorizedKey exampleKeyEnv ''PUB'')
           \<and> pubKey (snd (GetSSHKey exampleKeyEnv exampleHub)) =
               TrimSuffix (MarshalAuthorizedKey exampleKeyEnv ''PUB'') [CHR 0x0A]"
    using GetSSHKey_policy [of exampleKeyEnv exampleHub] p e by blast
  have m: "MarshalAuthorizedKey exampleKeyEnv ''PUB'' = ''ssh-ed25519 PUB'' @ [CHR 0x0A]"
    by (simp add: exampleKeyEnv_def)
  have n: "TrimSuffix (''ssh-ed25519 PUB'' @ [CHR 0x0A]) [CHR 0x0A] = ''ssh-ed25519 PUB''"
    by (simp add: TrimSuffix_def suffix_def)
  have d: "dataDir exampleHub = ''/data''" by (simp add: exampleHub_def)
  show ?thesis using a g unfolding m n d by simp
qed

subsection \<open>Alert manager: helper facts\<close>

lemma TrimSuffix_append: "TrimSuffix (s @ suf) suf = s"
  by (simp add: TrimSuffix_def suffix_def)

lemma sint_max_int: "sint (max_int a b) = max (sint a) (sint b)"
  by (simp add: max_int_def max_def)

lemma sint_Minute: "sint Minute = 60000000000"
  by (simp add: Minute_def Second_def)

lemma sint_Second10: "sint (Second * 10) = 10000000000"
  by (simp add: Second_def)

text \<open>
  Up to 153722867 minutes neither the product with \<open>time.Minute\<close> nor the sum with ten
  seconds leaves the range of a signed 64-bit integer.
\<close>

lemma sint_delayToNotification:
  assumes "sint (min_r r) \<le> 153722867"
  shows "sint (delayToNotification r) = max 1 (sint (min_r r)) * 60000000000 + 10000000000"
proof -
  let ?k = "max_int 1 (min_r r)"
  have k: "sint ?k = max 1 (sint (min_r r))" by (simp add: sint_max_int)
  then have b: "1 \<le> sint ?k" "sint ?k \<le> 153722867" using assms by auto
  have p: "sint (?k * Minute) = sint ?k * 60000000000"
    unfolding sint_word_mult sint_Minute
    by (rule signed_take_bit_int_eq_self) (use b in auto)
  have "sint (?k * Minute + Second * 10) = sint ?k * 60000000000 + 10000000000"
    unfolding sint_word_add p sint_Second10
    by (rule signed_take_bit_int_eq_self) (use b in auto)
  then show ?thesis using k by (simp add: delayToNotification_def)
qed

subsection \<open>Delay of a pending alert\<close>

text \<open>
  C4 (as stated, refuted). The delay is computed in \<open>time.Duration\<close>, a signed 64-bit
  count of nanoseconds. For a rule of 153722868 minutes the product with \<open>time.Minute\<close>
  wraps around: the delay is negative, not 153722868 minutes and 10 seconds, and the
  entry that the worker stores at time 0 has already expired.
\<close>

theorem delay_overflow_counterexample:
  "sint (delayToNotification \<lparr>Id_r = ''rule'', min_r = 153722868\<rparr>) = - 9223371983709551616
   \<and> sint (delayToNotification \<lparr>Id_r = ''rule'', min_r = 153722868\<rparr>)
       \<noteq> max 1 (sint (min_r \<lparr>Id_r = ''rule'', min_r = 153722868\<rparr>)) * 60000000000 + 10000000000
   \<and> map_of (pendingAlerts (processTask 0
        \<lparr>action = ''schedule'', systemName_t = ''web'',
         alertRecord_t = \<lparr>Id_r = ''rule'', min_r = 153722868\<rparr>,
         delay = delayToNotification \<lparr>Id_r = ''rule'', min_r = 153722868\<rparr>\<rparr> NewAlertManager)) ''rule''
     = Some \<lparr>systemName_i = ''web'', alertRecord_i = \<lparr>Id_r = ''rule'', min_r = 153722868\<rparr>,
             expireTime = - 9223371983709551616\<rparr>"
  by (simp add: delayToNotification_def max_int_def Minute_def Second_def processTask_def NewAlertManager_def)

text \<open>
  C4 (amended). For every alert rule whose configured minimum \<open>min\<close> is at most 153722867
  minutes, the delay computed for it is exactly \<open>max(1, min)\<close> minutes plus 10 seconds (in
  nanoseconds), and the entry that the worker stores for its schedule task at time
  \<open>now\<close> expires exactly that much after \<open>now\<close>.
\<close>

theorem pending_alert_delay:
  assumes "sint (min_r r) \<le> 153722867"
  shows "sint (delayToNotification r) = max 1 (sint (min_r r)) * 60000000000 + 10000000000
     \<and> map_of (pendingAlerts (processTask now
          \<lparr>action = ''schedule'', systemName_t = n, alertRecord_t = r,
           delay = delayToNotification r\<rparr> am)) (Id_r r)
        = Some \<lparr>systemName_i = n, alertRecord_i = r,
                expireTime = now + (max 1 (sint (min_r r)) * 60000000000 + 10000000000)\<rparr>"
  using sint_delayToNotification [OF assms]
  by (simp add: processTask_def update_conv')

theorem pending_alert_delay_witness:
  "sint (delayToNotification rule1) = 310000000000
   \<and> map_of (pendingAlerts (processTask 1000
          \<lparr>action = ''schedule'', systemName_t = ''web'', alertRecord_t = rule1,
           delay = delayToNotification rule1\<rparr> NewAlertManager)) ''rule1''
        = Some \<lparr>systemName_i = ''web'', alertRecord_i = rule1, expireTime = 310000001000\<rparr>"
  using pending_alert_delay [of rule1 1000 "''web''" NewAlertManager]
  by (simp add: rule1_def)

subsection \<open>Status alerts without a user\<close>

text \<open>
  C10. When the user reference of the rule's record expands to no user record,
  \<open>sendStatusAlert\<close> hands no message to the notification channel and changes nothing;
  it returns nil when the expansion reported no failure, so it returns an error only
  when the expansion itself failed.
\<close>

theorem sendStatusAlert_no_user:
  assumes "map_of (snd (ExpandRecord app r [''user''])) ''user'' = None"
  shows "snd (sendStatusAlert app alertStatus n r am) = am
     \<and> (fst (ExpandRecord app r [''user'']) = [] \<longrightarrow> fst (sendStatusAlert app alertStatus n r am) = None)
     \<and> (fst (sendStatusAlert app alertStatus n r am) \<noteq> None \<longrightarrow> fst (ExpandRecord app r [''user'']) \<noteq> [])"
  using assms by (auto simp: sendStatusAlert_def Let_def split: prod.splits)

theorem sendStatusAlert_no_user_witness:
  "sendStatusAlert exampleApp ''up'' ''db'' rule2 NewAlertManager = (None, NewAlertManager)"
proof -
  have e: "ExpandRecord exampleApp rule2 [''user''] = ([], [])"
    by (simp add: exampleApp_def rule1_def rule2_def)
  then have "map_of (snd (ExpandRecord exampleApp rule2 [''user''])) ''user'' = None" by simp
  from sendStatusAlert_no_user [OF this, of "''up''" "''db''" NewAlertManager] e
  show ?thesis by (simp add: prod_eq_iff)
qed

subsection \<open>Alert manager: the handlers and the worker\<close>

lemma handleSystemDown_eq:
  "handleSystemDown n recs am =
     am\<lparr>alertQueue := alertQueue am @ map (scheduleTask n) (filter (\<lambda>r. \<not> scheduled am r) recs)\<rparr>"
proof (induction recs arbitrary: am)
  case Nil
  then show ?case by simp
next
  case (Cons r recs)
  show ?case
  proof (cases "scheduled am r")
    case True
    then show ?thesis using Cons.IH [of am] by (simp add: scheduled_def)
  next
    case False
    let ?am = "am\<lparr>alertQueue := alertQueue am @ [scheduleTask n r]\<rparr>"
    have s: "scheduled ?am = scheduled am" by (simp add: scheduled_def fun_eq_iff)
    show ?thesis using False Cons.IH [of ?am] s
      by (simp add: scheduled_def scheduleTask_def)
  qed
qed

lemma alertQueue_same: "alertQueue am = q \<Longrightarrow> am\<lparr>alertQueue := q\<rparr> = am"
  by (cases am) simp

lemma processTask_fields [simp]:
  "alertQueue (processTask t task am) = alertQueue am"
  "stopped (processTask t task am) = stopped am"
  "sent (processTask t task am) = sent am"
  "errorLog (processTask t task am) = errorLog am"
  by (simp_all add: processTask_def)

lemma drainTasks_fields [simp]:
  "alertQueue (drainTasks t tasks am) = alertQueue am"
  "stopped (drainTasks t tasks am) = stopped am"
  "sent (drainTasks t tasks am) = sent am"
  "errorLog (drainTasks t tasks am) = errorLog am"
  by (induction tasks arbitrary: am) simp_all

lemma run_append: "run app (evs @ evs') am = run app evs' (run app evs am)"
  by (induction evs arbitrary: am) simp_all

lemma run_WorkerReceive:
  assumes "\<not> stopped am" "length (alertQueue am) \<le> k"
  shows "run app (replicate k (WorkerReceive t)) am = drainTasks t (alertQueue am) (am\<lparr>alertQueue := []\<rparr>)"
  using assms
proof (induction k arbitrary: am)
  case 0
  then show ?case by simp
next
  case (Suc k)
  show ?case
  proof (cases "alertQueue am")
    case Nil
    then have "am\<lparr>alertQueue := []\<rparr> = am" by (rule alertQueue_same)
    then show ?thesis using Suc Nil by simp
  next
    case (Cons task rest)
    let ?am = "processTask t task (am\<lparr>alertQueue := rest\<rparr>)"
    have "run app (replicate k (WorkerReceive t)) ?am = drainTasks t (alertQueue ?am) (?am\<lparr>alertQueue := []\<rparr>)"
      using Suc.prems Cons by (intro Suc.IH) simp_all
    moreover have "?am\<lparr>alertQueue := []\<rparr> = processTask t task (am\<lparr>alertQueue := []\<rparr>)"
      by (simp add: processTask_def)
    ultimately show ?thesis using Suc.prems Cons by simp
  qed
qed

lemma drainTasks_schedule_scheduled:
  assumes "r \<in> set rs \<or> scheduled am r"
  shows "scheduled (drainTasks t (map (scheduleTask n) rs) am) r"
  using assms
proof (induction rs arbitrary: am)
  case Nil
  then show ?case by simp
next
  case (Cons a rs)
  have "r \<in> set rs \<or> scheduled (processTask t (scheduleTask n a) am) r"
    using Cons.prems by (auto simp: scheduled_def processTask_def scheduleTask_def update_conv')
  then show ?case using Cons.IH by simp
qed

lemma sendStatusAlert_eq:
  "sendStatusAlert app st n r am =
     (case resolvedUser app r of
        None \<Rightarrow> (if fst (ExpandRecord app r [''user'']) = [] then None
                  else map_of (fst (ExpandRecord app r [''user''])) ''user'', am)
      | Some u \<Rightarrow> (sendAlertResult app (statusMessage app st n u),
                   am\<lparr>sent := sent am @ [statusMessage app st n u]\<rparr>))"
  using TrimSuffix_append [of "''Connection to '' @ n @ '' is '' @ st @ '' ''"]
  by (auto simp: sendStatusAlert_def sendAlert_def resolvedUser_def statusMessage_def Let_def
      split: prod.splits option.splits)

lemma sendStatusAlert_fields [simp]:
  "pendingAlerts (snd (sendStatusAlert app st n r am)) = pendingAlerts am"
  "alertQueue (snd (sendStatusAlert app st n r am)) = alertQueue am"
  "stopped (snd (sendStatusAlert app st n r am)) = stopped am"
  by (simp_all add: sendStatusAlert_eq split: option.splits)

lemma handleSystemDown_fields [simp]:
  "pendingAlerts (handleSystemDown n recs am) = pendingAlerts am"
  "stopped (handleSystemDown n recs am) = stopped am"
  "sent (handleSystemDown n recs am) = sent am"
  by (simp_all add: handleSystemDown_eq)

lemma handleSystemUp_Cons:
  "handleSystemUp app n (r # recs) am =
     handleSystemUp app n recs
       (if scheduled am r then am\<lparr>alertQueue := alertQueue am @ [cancelTask r]\<rparr>
        else (case fst (sendStatusAlert app ''up'' n r am) of
                Some err \<Rightarrow> (snd (sendStatusAlert app ''up'' n r am))
                               \<lparr>errorLog := errorLog (snd (sendStatusAlert app ''up'' n r am)) @
                                   [''Failed to send alert: '' @ err]\<rparr>
              | None \<Rightarrow> snd (sendStatusAlert app ''up'' n r am)))"
  by (cases "sendStatusAlert app ''up'' n r am")
     (auto simp: scheduled_def cancelTask_def split: option.splits)

lemma handleSystemUp_fields [simp]:
  "pendingAlerts (handleSystemUp app n recs am) = pendingAlerts am"
  "stopped (handleSystemUp app n recs am) = stopped am"
proof (induction recs arbitrary: am)
  case Nil
  { case 1 show ?case by simp }
  { case 2 show ?case by simp }
next
  case (Cons r recs)
  { case 1 show ?case unfolding handleSystemUp_Cons Cons.IH(1)
      by (simp split: option.splits) }
  { case 2 show ?case unfolding handleSystemUp_Cons Cons.IH(2)
      by (simp split: option.splits) }
qed

lemma HandleStatusAlerts_fields [simp]:
  "pendingAlerts (snd (HandleStatusAlerts app s old am)) = pendingAlerts am"
  "stopped (snd (HandleStatusAlerts app s old am)) = stopped am"
  by (simp_all add: HandleStatusAlerts_def Let_def split: sum.splits)

subsection \<open>Down transitions\<close>

text \<open>
  C3 (amended). For every down-transition reported to \<open>HandleStatusAlerts\<close> for a host
  whose previous status was "up" and whose Status rules were found: a schedule task is
  queued for each rule that has no entry among the pending alerts, in order, and
  nothing else changes; and when the queue was empty and the worker then receives
  these tasks, every rule of the host has an entry among the pending alerts.
\<close>

theorem HandleStatusAlerts_down:
  assumes "status old = ''up''"
      and "FindAllRecords app ''alerts'' [(''system'', Id_s old), (''name'', ''Status'')] = Inr recs"
  shows "HandleStatusAlerts app ''down'' old am =
           (None, am\<lparr>alertQueue := alertQueue am @
                        map (scheduleTask (name old)) (filter (\<lambda>r. \<not> scheduled am r) recs)\<rparr>)
     \<and> (\<not> stopped am \<and> alertQueue am = [] \<longrightarrow>
          (\<forall>r \<in> set recs.
             scheduled (run app (replicate (length recs) (WorkerReceive now))
                          (snd (HandleStatusAlerts app ''down'' old am))) r))"
proof -
  let ?am = "am\<lparr>alertQueue := alertQueue am @
                        map (scheduleTask (name old)) (filter (\<lambda>r. \<not> scheduled am r) recs)\<rparr>"
  have h: "HandleStatusAlerts app ''down'' old am = (None, ?am)"
  proof (cases recs)
    case Nil
    then show ?thesis using assms by (simp add: HandleStatusAlerts_def getSystemStatusAlerts_def)
  next
    case (Cons r rs)
    then show ?thesis using assms handleSystemDown_eq [of "name old" recs am]
      by (simp add: HandleStatusAlerts_def getSystemStatusAlerts_def)
  qed
  have "scheduled (run app (replicate (length recs) (WorkerReceive now)) ?am) r"
    if "\<not> stopped am" "alertQueue am = []" "r \<in> set recs" for r
  proof -
    have "length (alertQueue ?am) \<le> length recs" using that by simp
    then have "run app (replicate (length recs) (WorkerReceive now)) ?am
        = drainTasks now (alertQueue ?am) (?am\<lparr>alertQueue := []\<rparr>)"
      using that by (intro run_WorkerReceive) simp_all
    also have "\<dots> = drainTasks now (map (scheduleTask (name old)) (filter (\<lambda>r. \<not> scheduled am r) recs)) am"
      using that by (simp add: alertQueue_same)
    finally have e: "run app (replicate (length recs) (WorkerReceive now)) ?am
        = drainTasks now (map (scheduleTask (name old)) (filter (\<lambda>r. \<not> scheduled am r) recs)) am" .
    show ?thesis unfolding e using that by (intro drainTasks_schedule_scheduled) auto
  qed
  then show ?thesis using h by simp
qed


text \<open>
  C3 (as stated, refuted). The claim includes a host whose previous status was
  "pending". For the system "sys1", which has the Status rule "rule1", a down-transition
  from "pending" returns before the rules are looked up: nothing is queued, and after
  the worker's next receive no alert is pending for the rule.
\<close>

theorem HandleStatusAlerts_pending_counterexample:
  "getSystemStatusAlerts exampleApp (Id_s (sys1 ''pending'')) = Inr [rule1]
   \<and> HandleStatusAlerts exampleApp ''down'' (sys1 ''pending'') NewAlertManager = (None, NewAlertManager)
   \<and> run exampleApp [StatusChange 0 ''down'' (sys1 ''pending''), WorkerReceive 0] NewAlertManager
       = NewAlertManager
   \<and> \<not> scheduled (run exampleApp [StatusChange 0 ''down'' (sys1 ''pending''), WorkerReceive 0]
                      NewAlertManager) rule1"
  by (simp add: HandleStatusAlerts_def getSystemStatusAlerts_def exampleApp_def sys1_def
      NewAlertManager_def scheduled_def)

theorem HandleStatusAlerts_down_witness:
  "HandleStatusAlerts exampleApp ''down'' (sys1 ''up'') NewAlertManager
     = (None, NewAlertManager\<lparr>alertQueue := [scheduleTask ''web'' rule1]\<rparr>)
   \<and> scheduled (run exampleApp [WorkerReceive 7]
                  (snd (HandleStatusAlerts exampleApp ''down'' (sys1 ''up'') NewAlertManager))) rule1"
proof -
  have a: "status (sys1 ''up'') = ''up''" by (simp add: sys1_def)
  have b: "FindAllRecords exampleApp ''alerts'' [(''system'', Id_s (sys1 ''up'')), (''name'', ''Status'')] = Inr [rule1]"
    by (simp add: exampleApp_def sys1_def)
  have c: "\<not> scheduled NewAlertManager rule1" by (simp add: scheduled_def NewAlertManager_def)
  have d: "\<not> stopped NewAlertManager \<and> alertQueue NewAlertManager = []" by (simp add: NewAlertManager_def)
  have e: "name (sys1 ''up'') = ''web''" by (simp add: sys1_def)
  note t = HandleStatusAlerts_down [OF a b, of NewAlertManager 7]
  have h: "HandleStatusAlerts exampleApp ''down'' (sys1 ''up'') NewAlertManager
             = (None, NewAlertManager\<lparr>alertQueue := alertQueue NewAlertManager @
                  map (scheduleTask (name (sys1 ''up''))) (filter (\<lambda>r. \<not> scheduled NewAlertManager r) [rule1])\<rparr>)"
    using t by (rule conjunct1)
  have s: "\<forall>r \<in> set [rule1]. scheduled (run exampleApp (replicate (length [rule1]) (WorkerReceive 7))
                  (snd (HandleStatusAlerts exampleApp ''down'' (sys1 ''up'') NewAlertManager))) r"
    using t d by blast
  have q: "alertQueue NewAlertManager = []" by (simp add: NewAlertManager_def)
  have h': "HandleStatusAlerts exampleApp ''down'' (sys1 ''up'') NewAlertManager
     = (None, NewAlertManager\<lparr>alertQueue := [scheduleTask ''web'' rule1]\<rparr>)"
    unfolding h q e using c by simp
  have s': "scheduled (run exampleApp [WorkerReceive 7]
                  (snd (HandleStatusAlerts exampleApp ''down'' (sys1 ''up'') NewAlertManager))) rule1"
    using s by simp
  show ?thesis using h' s' by (rule conjI)
qed

subsection \<open>The pending alerts are keyed by rule id\<close>

lemma set_update_subset: "set (AList.update k v al) \<subseteq> insert (k, v) (set al)"
  by (induction al) auto

lemma set_delete_subset: "set (AList.delete k al) \<subseteq> set al"
  by (auto simp: AList.delete_eq)

lemma keyedByRule_update:
  "keyedByRule p \<Longrightarrow> k = Id_r (alertRecord_i v) \<Longrightarrow> keyedByRule (AList.update k v p)"
  using set_update_subset [of k v p] by (auto simp: keyedByRule_def distinct_update)

lemma keyedByRule_delete: "keyedByRule p \<Longrightarrow> keyedByRule (AList.delete k p)"
  using set_delete_subset [of k p] by (auto simp: keyedByRule_def distinct_delete)

lemma keyedByRule_processTask:
  "keyedByRule (pendingAlerts am) \<Longrightarrow> keyedByRule (pendingAlerts (processTask t task am))"
  by (simp add: processTask_def keyedByRule_update keyedByRule_delete)

lemma keyedByRule_sweep:
  "keyedByRule (pendingAlerts am) \<Longrightarrow> keyedByRule (pendingAlerts (sweep app t xs am))"
proof (induction xs arbitrary: am)
  case Nil
  then show ?case by simp
next
  case (Cons x xs)
  obtain key info where x: "x = (key, info)" by (cases x)
  show ?case
  proof (cases "t > expireTime info")
    case True
    let ?am = "snd (sendStatusAlert app ''down'' (systemName_i info) (alertRecord_i info) am)"
    have "keyedByRule (pendingAlerts (?am\<lparr>pendingAlerts := AList.delete key (pendingAlerts ?am)\<rparr>))"
      using Cons.prems by (simp add: keyedByRule_delete)
    then show ?thesis using True x Cons.IH by (simp add: Let_def)
  next
    case False
    then show ?thesis using x Cons by simp
  qed
qed

lemma keyedByRule_applyEvent:
  assumes k: "keyedByRule (pendingAlerts am)"
  shows "keyedByRule (pendingAlerts (applyEvent app ev am))"
proof (cases ev)
  case (StatusChange t s old)
  then show ?thesis using k by simp
next
  case (WorkerReceive t)
  show ?thesis
  proof (cases "alertQueue am")
    case Nil
    then show ?thesis using k WorkerReceive by simp
  next
    case (Cons task rest)
    have "keyedByRule (pendingAlerts (processTask t task (am\<lparr>alertQueue := rest\<rparr>)))"
      using k by (intro keyedByRule_processTask) simp
    then show ?thesis using k WorkerReceive Cons by simp
  qed
next
  case (SweepTick t)
  then show ?thesis using k by (simp add: processTick_def keyedByRule_sweep)
next
  case Stop
  then show ?thesis using k by simp
qed

lemma keyedByRule_run:
  "keyedByRule (pendingAlerts am) \<Longrightarrow> keyedByRule (pendingAlerts (run app evs am))"
  by (induction evs arbitrary: am) (simp_all add: keyedByRule_applyEvent)

lemma HandleStatusAlerts_down_queue:
  "\<exists>new. alertQueue (snd (HandleStatusAlerts app ''down'' old am)) = alertQueue am @ new
     \<and> (\<forall>task \<in> set new. action task = ''schedule'' \<and> \<not> scheduled am (alertRecord_t task))"
proof (cases "status old = ''up''")
  case False
  then have "snd (HandleStatusAlerts app ''down'' old am) = am"
    by (simp add: HandleStatusAlerts_def)
  then show ?thesis by simp
next
  case True
  show ?thesis
  proof (cases "getSystemStatusAlerts app (Id_s old)")
    case (Inl err)
    then have "snd (HandleStatusAlerts app ''down'' old am) = am"
      using True by (simp add: HandleStatusAlerts_def)
    then show ?thesis by simp
  next
    case (Inr recs)
    let ?new = "map (scheduleTask (name old)) (filter (\<lambda>r. \<not> scheduled am r) recs)"
    have "snd (HandleStatusAlerts app ''down'' old am) = am\<lparr>alertQueue := alertQueue am @ ?new\<rparr>"
      using True Inr handleSystemDown_eq [of "name old" recs am]
      by (cases recs) (simp_all add: HandleStatusAlerts_def alertQueue_same)
    moreover have "\<forall>task \<in> set ?new. action task = ''schedule'' \<and> \<not> scheduled am (alertRecord_t task)"
      by (auto simp: scheduleTask_def)
    ultimately show ?thesis by simp
  qed
qed

lemma HandleStatusAlerts_down_all_scheduled:
  assumes "FindAllRecords app ''alerts'' [(''system'', Id_s old), (''name'', ''Status'')] = Inr recs"
      and "\<forall>r \<in> set recs. scheduled am r"
  shows "HandleStatusAlerts app ''down'' old am = (None, am)"
proof -
  have "filter (\<lambda>r. \<not> scheduled am r) recs = []" using assms(2) by (simp add: filter_empty_conv)
  then have "handleSystemDown (name old) recs am = am"
    by (simp add: handleSystemDown_eq alertQueue_same)
  then show ?thesis using assms(1)
    by (simp add: HandleStatusAlerts_def getSystemStatusAlerts_def)
qed

text \<open>
  C5 (amended). In every execution of the engine from its initial state the pending
  alerts hold at most one entry for a rule id, each under the id of its own rule. No
  status change reported to \<open>HandleStatusAlerts\<close> changes the pending alerts, a
  down-transition queues schedule tasks only for rules without an entry, and for rules
  that all have an entry it is a no-op: no task is queued and no state changes, so the
  entries keep their expiry times. A schedule task that has reached the queue is stored
  by the worker whether or not the rule has an entry: the entry of the rule then
  expires the rule's delay after the time of receipt.
\<close>

theorem pendingAlerts_unique_idempotent:
  "distinct (map fst (pendingAlerts (run app evs NewAlertManager)))
   \<and> (\<forall>(k, info) \<in> set (pendingAlerts (run app evs NewAlertManager)). k = Id_r (alertRecord_i info))
   \<and> pendingAlerts (snd (HandleStatusAlerts app newStatus old am)) = pendingAlerts am
   \<and> (\<exists>new. alertQueue (snd (HandleStatusAlerts app ''down'' old am)) = alertQueue am @ new
         \<and> (\<forall>task \<in> set new. action task = ''schedule'' \<and> \<not> scheduled am (alertRecord_t task)))
   \<and> (FindAllRecords app ''alerts'' [(''system'', Id_s old), (''name'', ''Status'')] = Inr recs
        \<and> (\<forall>r \<in> set recs. scheduled am r) \<longrightarrow>
          HandleStatusAlerts app ''down'' old am = (None, am))
   \<and> pendingAlerts (handleSystemDown n recs am) = pendingAlerts am
   \<and> ((\<forall>r \<in> set recs. scheduled am r) \<longrightarrow> handleSystemDown n recs am = am)
   \<and> map_of (pendingAlerts (processTask now (scheduleTask n r) am)) (Id_r r)
       = Some \<lparr>systemName_i = n, alertRecord_i = r,
               expireTime = now + sint (delayToNotification r)\<rparr>"
proof -
  have "keyedByRule (pendingAlerts NewAlertManager)"
    by (simp add: keyedByRule_def NewAlertManager_def)
  then have k: "keyedByRule (pendingAlerts (run app evs NewAlertManager))"
    by (rule keyedByRule_run)
  have i: "handleSystemDown n recs am = am" if "\<forall>r \<in> set recs. scheduled am r"
  proof -
    have "filter (\<lambda>r. \<not> scheduled am r) recs = []" using that by (simp add: filter_empty_conv)
    then show ?thesis by (simp add: handleSystemDown_eq alertQueue_same)
  qed
  have w: "map_of (pendingAlerts (processTask now (scheduleTask n r) am)) (Id_r r)
       = Some \<lparr>systemName_i = n, alertRecord_i = r,
               expireTime = now + sint (delayToNotification r)\<rparr>"
    by (simp add: processTask_def scheduleTask_def update_conv')
  show ?thesis
    using k i w HandleStatusAlerts_down_queue [of app old am]
      HandleStatusAlerts_down_all_scheduled [of app old recs am]
    by (simp add: keyedByRule_def)
qed

text \<open>
  C5 (as stated, refuted). The claim has every schedule request for a rule with an
  entry leave the entry's expiry time alone. The host "sys1" goes down, up and down
  again before the worker receives anything: at both down-transitions "rule1" has no
  entry, so two schedule tasks are queued. The worker receives the first after 3
  seconds and stores an entry that expires at 313 seconds; it receives the second,
  for the rule that now has an entry, at 4 seconds and rewrites the expiry to 314
  seconds.
\<close>

theorem schedule_task_overwrites_counterexample:
  "map_of (pendingAlerts (run exampleApp
       [StatusChange 0 ''down'' (sys1 ''up''), StatusChange 1000000000 ''up'' (sys1 ''down''),
        StatusChange 2000000000 ''down'' (sys1 ''up''), WorkerReceive 3000000000] NewAlertManager)) ''rule1''
     = Some \<lparr>systemName_i = ''web'', alertRecord_i = rule1, expireTime = 313000000000\<rparr>
   \<and> alertQueue (run exampleApp
       [StatusChange 0 ''down'' (sys1 ''up''), StatusChange 1000000000 ''up'' (sys1 ''down''),
        StatusChange 2000000000 ''down'' (sys1 ''up''), WorkerReceive 3000000000] NewAlertManager)
     = [scheduleTask ''web'' rule1]
   \<and> map_of (pendingAlerts (run exampleApp
       [StatusChange 0 ''down'' (sys1 ''up''), StatusChange 1000000000 ''up'' (sys1 ''down''),
        StatusChange 2000000000 ''down'' (sys1 ''up''), WorkerReceive 3000000000,
        WorkerReceive 4000000000] NewAlertManager)) ''rule1''
     = Some \<lparr>systemName_i = ''web'', alertRecord_i = rule1, expireTime = 314000000000\<rparr>"
  by (simp add: HandleStatusAlerts_def getSystemStatusAlerts_def exampleApp_def sys1_def
        NewAlertManager_def processTask_def rule1_def delayToNotification_def max_int_def
        Minute_def Second_def sendStatusAlert_eq resolvedUser_def scheduleTask_def
        statusMessage_def Let_def)

theorem pendingAlerts_unique_idempotent_witness:
  "pendingAlerts (run exampleApp [StatusChange 0 ''down'' (sys1 ''up''), WorkerReceive 0] NewAlertManager)
     = [(''rule1'', \<lparr>systemName_i = ''web'', alertRecord_i = rule1, expireTime = 310000000000\<rparr>)]
   \<and> HandleStatusAlerts exampleApp ''down'' (sys1 ''up'')
        (NewAlertManager\<lparr>pendingAlerts :=
           [(''rule1'', \<lparr>systemName_i = ''web'', alertRecord_i = rule1, expireTime = 310000000000\<rparr>)]\<rparr>)
     = (None, NewAlertManager\<lparr>pendingAlerts :=
           [(''rule1'', \<lparr>systemName_i = ''web'', alertRecord_i = rule1, expireTime = 310000000000\<rparr>)]\<rparr>)"
proof -
  let ?am = "NewAlertManager\<lparr>pendingAlerts :=
           [(''rule1'', \<lparr>systemName_i = ''web'', alertRecord_i = rule1, expireTime = 310000000000\<rparr>)]\<rparr>"
  have s: "\<forall>r \<in> set [rule1]. scheduled ?am r" by (simp add: scheduled_def rule1_def)
  have f: "FindAllRecords exampleApp ''alerts'' [(''system'', Id_s (sys1 ''up'')), (''name'', ''Status'')] = Inr [rule1]"
    by (simp add: exampleApp_def sys1_def)
  have a: "HandleStatusAlerts exampleApp ''down'' (sys1 ''up'') ?am = (None, ?am)"
    using pendingAlerts_unique_idempotent [of exampleApp "[]" "''down''" "sys1 ''up''" ?am "[rule1]" "''web''" 0 rule1] s f
    by blast
  have b: "pendingAlerts (run exampleApp [StatusChange 0 ''down'' (sys1 ''up''), WorkerReceive 0] NewAlertManager)
     = [(''rule1'', \<lparr>systemName_i = ''web'', alertRecord_i = rule1, expireTime = 310000000000\<rparr>)]"
    by (simp add: HandleStatusAlerts_def getSystemStatusAlerts_def exampleApp_def sys1_def
        NewAlertManager_def processTask_def rule1_def delayToNotification_def max_int_def
        Minute_def Second_def)
  show ?thesis using a b by (rule conjI[rotated])
qed

subsection \<open>Up transitions\<close>

lemma sendStatusAlert_sent:
  "sent (snd (sendStatusAlert app st n r am)) =
     sent am @ (case resolvedUser app r of None \<Rightarrow> [] | Some u \<Rightarrow> [statusMessage app st n u])"
  by (simp add: sendStatusAlert_eq split: option.splits)

lemma scheduled_cong: "pendingAlerts am' = pendingAlerts am \<Longrightarrow> scheduled am' = scheduled am"
  by (simp add: scheduled_def fun_eq_iff)

lemma handleSystemUp_queue:
  "alertQueue (handleSystemUp app n recs am) = alertQueue am @ map cancelTask (filter (scheduled am) recs)"
proof (induction recs arbitrary: am)
  case Nil
  then show ?case by simp
next
  case (Cons r recs)
  show ?case
  proof (cases "scheduled am r")
    case True
    let ?am = "am\<lparr>alertQueue := alertQueue am @ [cancelTask r]\<rparr>"
    have "scheduled ?am = scheduled am" by (rule scheduled_cong) simp
    then show ?thesis using True Cons.IH [of ?am] unfolding handleSystemUp_Cons by simp
  next
    case False
    let ?s = "sendStatusAlert app ''up'' n r am"
    let ?am = "case fst ?s of Some err \<Rightarrow> (snd ?s)\<lparr>errorLog := errorLog (snd ?s) @ [''Failed to send alert: '' @ err]\<rparr>
                | None \<Rightarrow> snd ?s"
    have p: "pendingAlerts ?am = pendingAlerts am" "alertQueue ?am = alertQueue am"
      by (simp_all split: option.splits)
    have "scheduled ?am = scheduled am" using p(1) by (rule scheduled_cong)
    then show ?thesis using False Cons.IH [of ?am] p(2) unfolding handleSystemUp_Cons by simp
  qed
qed

lemma handleSystemUp_sent:
  "sent (handleSystemUp app n recs am) =
     sent am @ concat (map (\<lambda>r. if scheduled am r then []
                                 else (case resolvedUser app r of
                                         None \<Rightarrow> []
                                       | Some u \<Rightarrow> [statusMessage app ''up'' n u])) recs)"
proof (induction recs arbitrary: am)
  case Nil
  then show ?case by simp
next
  case (Cons r recs)
  show ?case
  proof (cases "scheduled am r")
    case True
    let ?am = "am\<lparr>alertQueue := alertQueue am @ [cancelTask r]\<rparr>"
    have "scheduled ?am = scheduled am" by (rule scheduled_cong) simp
    then show ?thesis using True Cons.IH [of ?am] unfolding handleSystemUp_Cons by simp
  next
    case False
    let ?s = "sendStatusAlert app ''up'' n r am"
    let ?am = "case fst ?s of Some err \<Rightarrow> (snd ?s)\<lparr>errorLog := errorLog (snd ?s) @ [''Failed to send alert: '' @ err]\<rparr>
                | None \<Rightarrow> snd ?s"
    have p: "pendingAlerts ?am = pendingAlerts am"
      by (simp split: option.splits)
    have q: "sent ?am = sent am @ (case resolvedUser app r of None \<Rightarrow> [] | Some u \<Rightarrow> [statusMessage app ''up'' n u])"
      using sendStatusAlert_sent [of app "''up''" n r am] by (simp split: option.splits)
    have "scheduled ?am = scheduled am" using p by (rule scheduled_cong)
    then show ?thesis using False Cons.IH [of ?am] q unfolding handleSystemUp_Cons by simp
  qed
qed










subsection \<open>Outages shorter than the minimum duration\<close>

lemma scheduled_iff_key: "scheduled am r \<longleftrightarrow> Id_r r \<in> fst ` set (pendingAlerts am)"
  by (simp add: scheduled_def map_of_eq_None_iff)

lemma scheduled_entriesOf: "scheduled am r \<longleftrightarrow> entriesOf (Id_r r) am \<noteq> {}"
  by (force simp: scheduled_iff_key entriesOf_def)

lemma fires_entriesOf:
  "key \<in> fst ` set (expired t am) \<longleftrightarrow> (\<exists>info \<in> entriesOf key am. t > expireTime info)"
  by (force simp: expired_def entriesOf_def)

lemma entriesOf_cong: "pendingAlerts am' = pendingAlerts am \<Longrightarrow> entriesOf key am' = entriesOf key am"
  by (simp add: entriesOf_def)

lemma tasksFor_cong: "alertQueue am' = alertQueue am \<Longrightarrow> tasksFor key am' = tasksFor key am"
  by (simp add: tasksFor_def)

lemma set_update_other:
  "k \<noteq> key \<Longrightarrow> (key, i) \<in> set (AList.update k v al) \<longleftrightarrow> (key, i) \<in> set al"
  by (induction al) auto

lemma set_delete_other:
  "k \<noteq> key \<Longrightarrow> (key, i) \<in> set (AList.delete k al) \<longleftrightarrow> (key, i) \<in> set al"
  by (auto simp: AList.delete_eq)

lemma entriesOf_processTask_other:
  assumes "Id_r (alertRecord_t task) \<noteq> key"
  shows "entriesOf key (processTask t task am) = entriesOf key am"
  using assms by (auto simp: entriesOf_def processTask_def set_update_other set_delete_other)

lemma entriesOf_processTask_cancel:
  assumes "Id_r (alertRecord_t task) = key" "action task = ''cancel''"
  shows "entriesOf key (processTask t task am) = {}"
  using assms delete_notin_dom [of key "pendingAlerts am"]
  by (force simp: entriesOf_def processTask_def)

lemma entriesOf_processTask_schedule:
  assumes "Id_r (alertRecord_t task) = key" "action task = ''schedule''"
  shows "entriesOf key (processTask t task am) \<noteq> {}"
    and "\<forall>info \<in> entriesOf key (processTask t task am).
           info \<in> entriesOf key am \<or> expireTime info = t + sint (delay task)"
proof -
  let ?v = "\<lparr>systemName_i = systemName_t task, alertRecord_i = alertRecord_t task,
             expireTime = t + sint (delay task)\<rparr>"
  have p: "pendingAlerts (processTask t task am) = AList.update key ?v (pendingAlerts am)"
    using assms by (simp add: processTask_def)
  have "key \<in> fst ` set (AList.update key ?v (pendingAlerts am))" by (simp add: dom_update)
  then show "entriesOf key (processTask t task am) \<noteq> {}"
    unfolding p entriesOf_def by force
  show "\<forall>info \<in> entriesOf key (processTask t task am).
           info \<in> entriesOf key am \<or> expireTime info = t + sint (delay task)"
    unfolding entriesOf_def p using set_update_subset [of key ?v "pendingAlerts am"] by auto
qed

lemma sweep_fields [simp]:
  "alertQueue (sweep app t xs am) = alertQueue am"
  "stopped (sweep app t xs am) = stopped am"
  by (induction app t xs am rule: sweep.induct) (simp_all add: Let_def)

lemma sweep_subset: "set (pendingAlerts (sweep app t xs am)) \<subseteq> set (pendingAlerts am)"
proof (induction xs arbitrary: am)
  case Nil
  then show ?case by simp
next
  case (Cons x xs)
  obtain key info where x: "x = (key, info)" by (cases x)
  show ?case
  proof (cases "t > expireTime info")
    case True
    let ?s = "snd (sendStatusAlert app ''down'' (systemName_i info) (alertRecord_i info) am)"
    let ?am = "?s\<lparr>pendingAlerts := AList.delete key (pendingAlerts ?s)\<rparr>"
    have "set (pendingAlerts ?am) \<subseteq> set (pendingAlerts am)"
      using set_delete_subset [of key "pendingAlerts am"] by simp
    then show ?thesis using True x Cons.IH [of ?am] by (auto simp: Let_def)
  next
    case False
    then show ?thesis using x Cons.IH [of am] by simp
  qed
qed

lemma sweep_keeps:
  assumes "\<forall>(k, info) \<in> set xs. t > expireTime info \<longrightarrow> k \<noteq> key"
  shows "entriesOf key (sweep app t xs am) = entriesOf key am"
  using assms
proof (induction xs arbitrary: am)
  case Nil
  then show ?case by simp
next
  case (Cons x xs)
  obtain k info where x: "x = (k, info)" by (cases x)
  show ?case
  proof (cases "t > expireTime info")
    case True
    let ?s = "snd (sendStatusAlert app ''down'' (systemName_i info) (alertRecord_i info) am)"
    let ?am = "?s\<lparr>pendingAlerts := AList.delete k (pendingAlerts ?s)\<rparr>"
    have "k \<noteq> key" using Cons.prems True x by auto
    then have "entriesOf key ?am = entriesOf key am"
      by (simp add: entriesOf_def set_delete_other)
    moreover have "entriesOf key (sweep app t xs ?am) = entriesOf key ?am"
      using Cons.prems by (intro Cons.IH) simp
    ultimately show ?thesis using True x by (simp add: Let_def)
  next
    case False
    have "entriesOf key (sweep app t xs am) = entriesOf key am"
      using Cons.prems by (intro Cons.IH) simp
    then show ?thesis using False x by simp
  qed
qed

lemma processTick_unfired:
  assumes "\<not> (\<exists>info \<in> entriesOf key am. t > expireTime info)"
  shows "entriesOf key (processTick app t am) = entriesOf key am"
  unfolding processTick_def
  using assms by (intro sweep_keeps) (auto simp: entriesOf_def)

lemma processTick_subset: "entriesOf key (processTick app t am) \<subseteq> entriesOf key am"
  using sweep_subset [of app t "pendingAlerts am" am] by (auto simp: processTick_def entriesOf_def)

lemma processTick_fields [simp]:
  "alertQueue (processTick app t am) = alertQueue am"
  "stopped (processTick app t am) = stopped am"
  by (simp_all add: processTick_def)

lemma HandleStatusAlerts_queue:
  "\<exists>new. alertQueue (snd (HandleStatusAlerts app s old am)) = alertQueue am @ new
     \<and> (\<forall>task \<in> set new. \<exists>recs. getSystemStatusAlerts app (Id_s old) = Inr recs
                                  \<and> alertRecord_t task \<in> set recs)"
proof (cases "getSystemStatusAlerts app (Id_s old)")
  case (Inl err)
  then have "snd (HandleStatusAlerts app s old am) = am"
    by (simp add: HandleStatusAlerts_def Let_def)
  then show ?thesis by simp
next
  case (Inr recs)
  show ?thesis
  proof (cases "s = ''down'' \<and> status old = ''up'' \<and> recs \<noteq> []")
    case True
    let ?new = "map (scheduleTask (name old)) (filter (\<lambda>r. \<not> scheduled am r) recs)"
    have "alertQueue (snd (HandleStatusAlerts app s old am)) = alertQueue am @ ?new"
      using True Inr by (simp add: HandleStatusAlerts_def handleSystemDown_eq)
    moreover have "\<forall>task \<in> set ?new. alertRecord_t task \<in> set recs"
      by (auto simp: scheduleTask_def)
    ultimately show ?thesis using Inr by blast
  next
    case notdown: False
    show ?thesis
    proof (cases "s = ''up'' \<and> status old = ''down'' \<and> recs \<noteq> []")
      case True
      let ?new = "map cancelTask (filter (scheduled am) recs)"
      have "alertQueue (snd (HandleStatusAlerts app s old am)) = alertQueue am @ ?new"
        using True Inr by (simp add: HandleStatusAlerts_def handleSystemUp_queue)
      moreover have "\<forall>task \<in> set ?new. alertRecord_t task \<in> set recs"
        by (auto simp: cancelTask_def)
      ultimately show ?thesis using Inr by blast
    next
      case False
      then have "snd (HandleStatusAlerts app s old am) = am"
        using notdown Inr by (auto simp: HandleStatusAlerts_def Let_def)
      then show ?thesis by simp
    qed
  qed
qed

lemma tasksFor_foreign:
  assumes "foreignTo app key (StatusChange t s old)"
  shows "tasksFor key (snd (HandleStatusAlerts app s old am)) = tasksFor key am"
proof -
  obtain new where n: "alertQueue (snd (HandleStatusAlerts app s old am)) = alertQueue am @ new"
    "\<forall>task \<in> set new. \<exists>recs. getSystemStatusAlerts app (Id_s old) = Inr recs
                                  \<and> alertRecord_t task \<in> set recs"
    using HandleStatusAlerts_queue [of app s old am] by blast
  have "\<forall>task \<in> set new. Id_r (alertRecord_t task) \<noteq> key"
    using n(2) assms by (auto split: sum.splits)
  then have "filter (\<lambda>task. Id_r (alertRecord_t task) = key) new = []"
    by (simp add: filter_empty_conv)
  then show ?thesis using n(1) by (simp add: tasksFor_def)
qed


lemma downPhase_cong:
  assumes "entriesOf (Id_r r) am' = entriesOf (Id_r r) am" "tasksFor (Id_r r) am' = tasksFor (Id_r r) am"
  shows "downPhase r T0 D am' = downPhase r T0 D am"
  using assms by (simp add: downPhase_def unexpiredUntil_def)

lemma upPhase_cong:
  assumes "entriesOf (Id_r r) am' = entriesOf (Id_r r) am" "tasksFor (Id_r r) am' = tasksFor (Id_r r) am"
  shows "upPhase r D am' = upPhase r D am"
  using assms by (simp add: upPhase_def unexpiredUntil_def)

lemma unfired_before_deadline:
  assumes "unexpiredUntil key D am" "t \<le> D"
  shows "\<not> (\<exists>info \<in> entriesOf key am. t > expireTime info)"
proof
  assume "\<exists>info \<in> entriesOf key am. t > expireTime info"
  then obtain info where i: "info \<in> entriesOf key am" "t > expireTime info" by blast
  have "D \<le> expireTime info" using assms(1) i(1) unfolding unexpiredUntil_def by blast
  then show False using i(2) assms(2) by linarith
qed

lemma receive_other:
  assumes q: "alertQueue am = task # rest" and o: "Id_r (alertRecord_t task) \<noteq> key"
  shows "entriesOf key (processTask t task (am\<lparr>alertQueue := rest\<rparr>)) = entriesOf key am"
    and "tasksFor key (processTask t task (am\<lparr>alertQueue := rest\<rparr>)) = tasksFor key am"
proof -
  have "entriesOf key (processTask t task (am\<lparr>alertQueue := rest\<rparr>)) = entriesOf key (am\<lparr>alertQueue := rest\<rparr>)"
    using o by (rule entriesOf_processTask_other)
  then show "entriesOf key (processTask t task (am\<lparr>alertQueue := rest\<rparr>)) = entriesOf key am"
    by (simp add: entriesOf_def)
  show "tasksFor key (processTask t task (am\<lparr>alertQueue := rest\<rparr>)) = tasksFor key am"
    using q o by (simp add: tasksFor_def)
qed

lemma receive_own:
  assumes q: "alertQueue am = task # rest" and o: "Id_r (alertRecord_t task) = key"
  shows "tasksFor key am = task # tasksFor key (processTask t task (am\<lparr>alertQueue := rest\<rparr>))"
  using q o by (simp add: tasksFor_def)

lemma downPhase_step:
  assumes inv: "downPhase r T0 D am"
      and fo: "foreignTo app (Id_r r) ev"
      and wt: "\<forall>t. ev = WorkerReceive t \<longrightarrow> T0 \<le> t"
      and st: "\<forall>t. ev = SweepTick t \<longrightarrow> t \<le> D"
  shows "downPhase r T0 D (applyEvent app ev am)"
    and "\<not> (case ev of SweepTick t \<Rightarrow> \<not> stopped am \<and> Id_r r \<in> fst ` set (expired t am) | _ \<Rightarrow> False)"
proof -
  let ?key = "Id_r r"
  have u: "unexpiredUntil ?key D am" using inv by (simp add: downPhase_def)
  show "downPhase r T0 D (applyEvent app ev am)"
  proof (cases ev)
    case (StatusChange t s old)
    have "entriesOf ?key (snd (HandleStatusAlerts app s old am)) = entriesOf ?key am"
      by (rule entriesOf_cong) simp
    moreover have "tasksFor ?key (snd (HandleStatusAlerts app s old am)) = tasksFor ?key am"
      using fo StatusChange by (intro tasksFor_foreign) simp
    ultimately have "downPhase r T0 D (snd (HandleStatusAlerts app s old am)) = downPhase r T0 D am"
      by (rule downPhase_cong)
    then show ?thesis using inv StatusChange by simp
  next
    case (WorkerReceive t)
    show ?thesis
    proof (cases "stopped am \<or> alertQueue am = []")
      case True
      then show ?thesis using inv WorkerReceive by auto
    next
      case False
      then obtain task rest where q: "alertQueue am = task # rest" by (cases "alertQueue am") auto
      let ?am = "processTask t task (am\<lparr>alertQueue := rest\<rparr>)"
      have a: "applyEvent app ev am = ?am" using False q WorkerReceive by simp
      show ?thesis
      proof (cases "Id_r (alertRecord_t task) = ?key")
        case False
        have "downPhase r T0 D ?am = downPhase r T0 D am"
          using receive_other [OF q False, of t] by (intro downPhase_cong)
        then show ?thesis unfolding a using inv by simp
      next
        case True
        have tf: "tasksFor ?key am = task # tasksFor ?key ?am" using q True by (rule receive_own)
        have ne: "tasksFor ?key am \<noteq> []" using tf by simp
        have "entriesOf ?key am = {} \<and>
                (\<exists>task'. tasksFor ?key am = [task'] \<and> action task' = ''schedule''
                        \<and> D \<le> T0 + sint (delay task'))"
          using inv ne unfolding downPhase_def by blast
        then obtain task' where e: "entriesOf ?key am = {}" and t1: "tasksFor ?key am = [task']"
            and ac': "action task' = ''schedule''" and dl': "D \<le> T0 + sint (delay task')"
          by blast
        have "task # tasksFor ?key ?am = [task']" using tf t1 by simp
        then have tt: "task' = task" and ts: "tasksFor ?key ?am = []" by blast+
        have ac: "action task = ''schedule''" and dl: "D \<le> T0 + sint (delay task)"
          using ac' dl' tt by simp_all
        have e1: "entriesOf ?key (am\<lparr>alertQueue := rest\<rparr>) = {}" using e by (simp add: entriesOf_def)
        have n: "entriesOf ?key ?am \<noteq> {}" using True ac by (rule entriesOf_processTask_schedule(1))
        have "\<forall>info \<in> entriesOf ?key ?am. expireTime info = t + sint (delay task)"
          using entriesOf_processTask_schedule(2) [OF True ac, of t "am\<lparr>alertQueue := rest\<rparr>"] e1 by auto
        moreover have "T0 \<le> t" using wt WorkerReceive by simp
        ultimately have "unexpiredUntil ?key D ?am" using dl by (auto simp: unexpiredUntil_def)
        then show ?thesis unfolding a using n ts by (simp add: downPhase_def)
      qed
    qed
  next
    case (SweepTick t)
    show ?thesis
    proof (cases "stopped am")
      case True
      then show ?thesis using inv SweepTick by simp
    next
      case False
      have "t \<le> D" using st SweepTick by simp
      then have "entriesOf ?key (processTick app t am) = entriesOf ?key am"
        using u by (intro processTick_unfired unfired_before_deadline)
      moreover have "tasksFor ?key (processTick app t am) = tasksFor ?key am"
        by (rule tasksFor_cong) simp
      ultimately have "downPhase r T0 D (processTick app t am) = downPhase r T0 D am"
        by (rule downPhase_cong)
      then show ?thesis using inv SweepTick False by simp
    qed
  next
    case Stop
    have "entriesOf ?key (am\<lparr>stopped := True\<rparr>) = entriesOf ?key am" by (simp add: entriesOf_def)
    moreover have "tasksFor ?key (am\<lparr>stopped := True\<rparr>) = tasksFor ?key am" by (simp add: tasksFor_def)
    ultimately have "downPhase r T0 D (am\<lparr>stopped := True\<rparr>) = downPhase r T0 D am"
      by (rule downPhase_cong)
    then show ?thesis using inv Stop by simp
  qed
  show "\<not> (case ev of SweepTick t \<Rightarrow> \<not> stopped am \<and> Id_r r \<in> fst ` set (expired t am) | _ \<Rightarrow> False)"
  proof (cases ev)
    case (SweepTick t)
    have "t \<le> D" using st SweepTick by simp
    then show ?thesis using SweepTick u unfired_before_deadline [of ?key D am t]
      by (simp add: fires_entriesOf)
  qed simp_all
qed

lemma upPhase_step:
  assumes inv: "upPhase r D am"
      and fo: "foreignTo app (Id_r r) ev"
      and ct: "case ev of
                 SweepTick t \<Rightarrow> \<not> stopped am \<and> t > D \<longrightarrow>
                   (\<forall>task \<in> set (tasksFor (Id_r r) am). action task \<noteq> ''cancel'')
               | _ \<Rightarrow> True"
  shows "upPhase r D (applyEvent app ev am)"
    and "\<not> (case ev of SweepTick t \<Rightarrow> \<not> stopped am \<and> Id_r r \<in> fst ` set (expired t am) | _ \<Rightarrow> False)"
proof -
  let ?key = "Id_r r"
  have sweep_ok: "\<not> (\<exists>info \<in> entriesOf ?key am. t > expireTime info)"
    if "ev = SweepTick t" "\<not> stopped am" for t
  proof (cases "entriesOf ?key am = {}")
    case True
    then show ?thesis by simp
  next
    case False
    then have u: "unexpiredUntil ?key D am"
      and c: "\<exists>task. tasksFor ?key am = [task] \<and> action task = ''cancel''"
      using inv by (auto simp: upPhase_def)
    have "\<not> t > D" using ct that c by auto
    then have "t \<le> D" by simp
    with u show ?thesis by (rule unfired_before_deadline)
  qed
  show "upPhase r D (applyEvent app ev am)"
  proof (cases ev)
    case (StatusChange t s old)
    have "entriesOf ?key (snd (HandleStatusAlerts app s old am)) = entriesOf ?key am"
      by (rule entriesOf_cong) simp
    moreover have "tasksFor ?key (snd (HandleStatusAlerts app s old am)) = tasksFor ?key am"
      using fo StatusChange by (intro tasksFor_foreign) simp
    ultimately have "upPhase r D (snd (HandleStatusAlerts app s old am)) = upPhase r D am"
      by (rule upPhase_cong)
    then show ?thesis using inv StatusChange by simp
  next
    case (WorkerReceive t)
    show ?thesis
    proof (cases "stopped am \<or> alertQueue am = []")
      case True
      then show ?thesis using inv WorkerReceive by auto
    next
      case False
      then obtain task rest where q: "alertQueue am = task # rest" by (cases "alertQueue am") auto
      let ?am = "processTask t task (am\<lparr>alertQueue := rest\<rparr>)"
      have a: "applyEvent app ev am = ?am" using False q WorkerReceive by simp
      show ?thesis
      proof (cases "Id_r (alertRecord_t task) = ?key")
        case False
        have "upPhase r D ?am = upPhase r D am"
          using receive_other [OF q False, of t] by (intro upPhase_cong)
        then show ?thesis unfolding a using inv by simp
      next
        case True
        have tf: "tasksFor ?key am = task # tasksFor ?key ?am" using q True by (rule receive_own)
        have ne: "tasksFor ?key am \<noteq> []" using tf by simp
        have "\<exists>task'. tasksFor ?key am = [task'] \<and> action task' = ''cancel''"
          using inv ne unfolding upPhase_def by blast
        then obtain task' where t1: "tasksFor ?key am = [task']" and ac': "action task' = ''cancel''"
          by blast
        have "task # tasksFor ?key ?am = [task']" using tf t1 by simp
        then have tt: "task' = task" and ts: "tasksFor ?key ?am = []" by blast+
        have ac: "action task = ''cancel''" using ac' tt by simp
        have "entriesOf ?key ?am = {}" using True ac by (rule entriesOf_processTask_cancel)
        then show ?thesis unfolding a using ts by (simp add: upPhase_def)
      qed
    qed
  next
    case (SweepTick t)
    show ?thesis
    proof (cases "stopped am")
      case True
      then show ?thesis using inv SweepTick by simp
    next
      case False
      have "entriesOf ?key (processTick app t am) = entriesOf ?key am"
        using sweep_ok [OF SweepTick False] by (rule processTick_unfired)
      moreover have "tasksFor ?key (processTick app t am) = tasksFor ?key am"
        by (rule tasksFor_cong) simp
      ultimately have "upPhase r D (processTick app t am) = upPhase r D am"
        by (rule upPhase_cong)
      then show ?thesis using inv SweepTick False by simp
    qed
  next
    case Stop
    have "entriesOf ?key (am\<lparr>stopped := True\<rparr>) = entriesOf ?key am" by (simp add: entriesOf_def)
    moreover have "tasksFor ?key (am\<lparr>stopped := True\<rparr>) = tasksFor ?key am" by (simp add: tasksFor_def)
    ultimately have "upPhase r D (am\<lparr>stopped := True\<rparr>) = upPhase r D am"
      by (rule upPhase_cong)
    then show ?thesis using inv Stop by simp
  qed
  show "\<not> (case ev of SweepTick t \<Rightarrow> \<not> stopped am \<and> Id_r r \<in> fst ` set (expired t am) | _ \<Rightarrow> False)"
  proof (cases ev)
    case (SweepTick t)
    then show ?thesis using sweep_ok [OF SweepTick] by (auto simp: fires_entriesOf)
  qed simp_all
qed

lemma downPhase_run:
  assumes "downPhase r T0 D am"
      and "\<forall>ev \<in> set evs. foreignTo app (Id_r r) ev"
      and "\<forall>t. WorkerReceive t \<in> set evs \<longrightarrow> T0 \<le> t"
      and "\<forall>t. SweepTick t \<in> set evs \<longrightarrow> t \<le> D"
  shows "downPhase r T0 D (run app evs am) \<and> \<not> firesFor app (Id_r r) evs am"
  using assms
proof (induction evs arbitrary: am)
  case Nil
  then show ?case by simp
next
  case (Cons ev evs)
  have p: "downPhase r T0 D am" "foreignTo app (Id_r r) ev"
    "\<forall>t. ev = WorkerReceive t \<longrightarrow> T0 \<le> t" "\<forall>t. ev = SweepTick t \<longrightarrow> t \<le> D"
    using Cons.prems by auto
  note s = downPhase_step [OF p]
  have "downPhase r T0 D (run app evs (applyEvent app ev am))
        \<and> \<not> firesFor app (Id_r r) evs (applyEvent app ev am)"
    using s(1) Cons.prems by (intro Cons.IH) simp_all
  then show ?case using s(2) by simp
qed

lemma upPhase_run:
  assumes "upPhase r D am"
      and "\<forall>ev \<in> set evs. foreignTo app (Id_r r) ev"
      and "cancelledInTime app (Id_r r) D evs am"
  shows "\<not> firesFor app (Id_r r) evs am"
  using assms
proof (induction evs arbitrary: am)
  case Nil
  then show ?case by simp
next
  case (Cons ev evs)
  have p: "upPhase r D am" "foreignTo app (Id_r r) ev"
    "case ev of
       SweepTick t \<Rightarrow> \<not> stopped am \<and> t > D \<longrightarrow>
         (\<forall>task \<in> set (tasksFor (Id_r r) am). action task \<noteq> ''cancel'')
     | _ \<Rightarrow> True"
    using Cons.prems by simp_all
  note s = upPhase_step [OF p]
  have "\<not> firesFor app (Id_r r) evs (applyEvent app ev am)"
    using s(1) Cons.prems by (intro Cons.IH) simp_all
  then show ?case using s(2) by simp
qed

lemma firesFor_append:
  "firesFor app key (evs @ evs') am \<longleftrightarrow>
     firesFor app key evs am \<or> firesFor app key evs' (run app evs am)"
  by (induction evs arbitrary: am) auto

lemma tasksFor_schedule_map:
  "filter (\<lambda>task. Id_r (alertRecord_t task) = key) (map (scheduleTask n) xs)
     = map (scheduleTask n) (filter (\<lambda>x. Id_r x = key) xs)"
  by (induction xs) (simp_all add: scheduleTask_def)

lemma tasksFor_cancel_map:
  "filter (\<lambda>task. Id_r (alertRecord_t task) = key) (map cancelTask xs)
     = map cancelTask (filter (\<lambda>x. Id_r x = key) xs)"
  by (induction xs) (simp_all add: cancelTask_def)

lemma filter_own_rule:
  assumes "filter (\<lambda>x. Id_r x = key) recs = [r]" "P r"
  shows "filter (\<lambda>x. Id_r x = key) (filter P recs) = [r]"
proof -
  have "filter (\<lambda>x. Id_r x = key) (filter P recs) = filter P (filter (\<lambda>x. Id_r x = key) recs)"
    by (simp add: conj_commute)
  then show ?thesis using assms by simp
qed

lemma downPhase_begin:
  assumes ns: "\<not> scheduled am r" and nt: "tasksFor (Id_r r) am = []"
      and st: "status old = ''up''"
      and rs: "getSystemStatusAlerts app (Id_s old) = Inr recs"
      and own: "filter (\<lambda>x. Id_r x = Id_r r) recs = [r]"
      and dl: "D \<le> T0 + sint (delayToNotification r)"
  shows "downPhase r T0 D (applyEvent app (StatusChange T0 ''down'' old) am)"
proof -
  let ?am = "am\<lparr>alertQueue := alertQueue am @
               map (scheduleTask (name old)) (filter (\<lambda>x. \<not> scheduled am x) recs)\<rparr>"
  have ne: "recs \<noteq> []" using own by auto
  have a: "applyEvent app (StatusChange T0 ''down'' old) am = ?am"
    using st rs ne by (simp add: HandleStatusAlerts_def handleSystemDown_eq)
  have e: "entriesOf (Id_r r) ?am = {}" using ns by (simp add: scheduled_entriesOf entriesOf_def)
  have "tasksFor (Id_r r) ?am = [scheduleTask (name old) r]"
    using nt filter_own_rule [OF own, of "\<lambda>x. \<not> scheduled am x"] ns
    by (simp add: tasksFor_def tasksFor_schedule_map)
  moreover have "action (scheduleTask (name old) r) = ''schedule''"
    "delay (scheduleTask (name old) r) = delayToNotification r"
    by (simp_all add: scheduleTask_def)
  ultimately show ?thesis unfolding a using e dl by (simp add: downPhase_def unexpiredUntil_def)
qed

lemma upPhase_begin:
  assumes inv: "downPhase r T0 D am" and sc: "scheduled am r"
      and st: "status old = ''down''"
      and rs: "getSystemStatusAlerts app (Id_s old) = Inr recs"
      and own: "filter (\<lambda>x. Id_r x = Id_r r) recs = [r]"
  shows "upPhase r D (applyEvent app (StatusChange U ''up'' old) am)"
proof -
  let ?am = "snd (HandleStatusAlerts app ''up'' old am)"
  have ne: "recs \<noteq> []" using own by auto
  have q: "alertQueue ?am = alertQueue am @ map cancelTask (filter (scheduled am) recs)"
    using st rs ne by (simp add: HandleStatusAlerts_def handleSystemUp_queue)
  have "entriesOf (Id_r r) am \<noteq> {}" using sc by (simp add: scheduled_entriesOf)
  then have nt: "tasksFor (Id_r r) am = []" and u: "unexpiredUntil (Id_r r) D am"
    using inv unfolding downPhase_def by blast+
  have "tasksFor (Id_r r) ?am = [cancelTask r]"
    using q nt filter_own_rule [OF own, of "scheduled am"] sc
    by (simp add: tasksFor_def tasksFor_cancel_map)
  moreover have "action (cancelTask r) = ''cancel''" by (simp add: cancelTask_def)
  moreover have "entriesOf (Id_r r) ?am = entriesOf (Id_r r) am" by (rule entriesOf_cong) simp
  ultimately show ?thesis using u by (simp add: upPhase_def unexpiredUntil_def)
qed

lemma sweep_sent_expired:
  "sent (sweep app t xs am) =
     sent am @ concat (map (\<lambda>(key, info). case resolvedUser app (alertRecord_i info) of
                                              None \<Rightarrow> []
                                            | Some u \<Rightarrow> [statusMessage app ''down'' (systemName_i info) u])
                           (filter (\<lambda>(key, info). t > expireTime info) xs))"
  by (induction app t xs am rule: sweep.induct) (simp_all add: Let_def sendStatusAlert_sent)

lemma not_down_suffix_up: "\<not> suffix downEmoji (xs @ upEmoji)"
proof
  assume "suffix downEmoji (xs @ upEmoji)"
  then obtain zs where "xs @ upEmoji = zs @ downEmoji" by (auto simp: suffix_def)
  then have "last (xs @ upEmoji) = last (zs @ downEmoji)" by simp
  then show False by (simp add: upEmoji_def downEmoji_def)
qed

lemma up_message_not_down: "\<not> isDownNotice (statusMessage app ''up'' n u)"
  using not_down_suffix_up [of "''Connection to '' @ n @ '' is up ''"]
  by (simp add: isDownNotice_def statusMessage_def)

lemma HandleStatusAlerts_no_down_notice:
  "\<exists>new. sent (snd (HandleStatusAlerts app s old am)) = sent am @ new
     \<and> (\<forall>m \<in> set new. \<not> isDownNotice m)"
proof (cases "s = ''up''")
  case True
  show ?thesis
  proof (cases "getSystemStatusAlerts app (Id_s old)")
    case (Inl err)
    then have "snd (HandleStatusAlerts app s old am) = am"
      by (simp add: HandleStatusAlerts_def Let_def)
    then show ?thesis by simp
  next
    case (Inr recs)
    let ?new = "concat (map (\<lambda>r. if scheduled am r then []
                                   else (case resolvedUser app r of
                                           None \<Rightarrow> []
                                         | Some u \<Rightarrow> [statusMessage app ''up'' (name old) u])) recs)"
    have n: "\<forall>m \<in> set ?new. \<not> isDownNotice m"
      by (auto simp: up_message_not_down split: option.splits if_splits)
    have "sent (snd (HandleStatusAlerts app s old am)) = sent am @ []
          \<or> sent (snd (HandleStatusAlerts app s old am)) = sent am @ ?new"
      using True Inr by (simp add: HandleStatusAlerts_def Let_def handleSystemUp_sent)
    then show ?thesis
    proof
      assume "sent (snd (HandleStatusAlerts app s old am)) = sent am @ []"
      then show ?thesis by fastforce
    next
      assume "sent (snd (HandleStatusAlerts app s old am)) = sent am @ ?new"
      then show ?thesis using n by blast
    qed
  qed
next
  case False
  then have "sent (snd (HandleStatusAlerts app s old am)) = sent am"
    by (simp add: HandleStatusAlerts_def Let_def split: sum.splits)
  then show ?thesis by simp
qed

lemma processTick_sent:
  "sent (applyEvent app (SweepTick t) am) =
     (if stopped am then sent am
      else sent am @ concat (map (\<lambda>(key, info). case resolvedUser app (alertRecord_i info) of
                                              None \<Rightarrow> []
                                            | Some u \<Rightarrow> [statusMessage app ''down'' (systemName_i info) u])
                           (expired t am)))"
  by (simp add: processTick_def sweep_sent_expired expired_def)

lemma applyEvent_down_only:
  "\<exists>new. sent (applyEvent app ev am) = sent am @ new
     \<and> ((\<exists>m \<in> set new. isDownNotice m) \<longrightarrow> (\<exists>t. ev = SweepTick t \<and> \<not> stopped am))"
proof (cases ev)
  case (StatusChange t s old)
  then show ?thesis using HandleStatusAlerts_no_down_notice [of app s old am] by auto
next
  case (WorkerReceive t)
  then show ?thesis by (simp split: list.splits)
next
  case (SweepTick t)
  show ?thesis
  proof (cases "stopped am")
    case True
    then show ?thesis using SweepTick by simp
  next
    case False
    then show ?thesis unfolding SweepTick processTick_sent by simp
  qed
next
  case Stop
  then show ?thesis by simp
qed

lemmas alert_eval =
  HandleStatusAlerts_def getSystemStatusAlerts_def NewAlertManager_def processTask_def
  delayToNotification_def max_int_def Minute_def Second_def processTick_def sendStatusAlert_eq
  resolvedUser_def statusMessage_def scheduleTask_def cancelTask_def Let_def expired_def
  tasksFor_def scheduled_def

text \<open>
  C7 (amended). Take any host and any one of its Status rules \<open>r\<close>, of a minimum duration
  of \<open>M\<close> minutes (at most 153722867, and counted as 1 when it is less), where the lookup
  of the host's rules succeeds and returns \<open>r\<close> once. Take any execution that starts in
  a state in which \<open>r\<close> has neither a pending alert nor a queued task, and in which

  \<^item> the host goes from "up" to "down" at \<open>T0\<close>;

  \<^item> then come any events \<open>evsA\<close> that are not status changes of a host holding the rule
    \<open>r\<close>: other hosts change status, the worker receives tasks, of this rule and of the
    others, at times no earlier than \<open>T0\<close>, it sweeps at times no later than \<open>U\<close>, it
    stops; and by the end of them the worker has received the schedule task of \<open>r\<close>;

  \<^item> the host goes from "down" to "up" at \<open>U\<close>, strictly less than \<open>M\<close> minutes plus
    10 seconds after \<open>T0\<close>;

  \<^item> then come any events \<open>evsB\<close> that are not status changes of a host holding the rule
    \<open>r\<close>, in which no sweep of a running worker later than \<open>T0\<close> plus \<open>M\<close> minutes plus
    10 seconds happens while the cancel task of \<open>r\<close> is still queued.

  Then no sweep of the execution finds a pending alert of \<open>r\<close> expired. Since a sweep sends
  exactly the "down" notifications of the alerts that it finds expired, and no other
  event sends a "down" notification, no "down" notification is ever sent for \<open>r\<close>. The
  other rules of the host, and the other hosts, are not constrained: they may send their
  own notifications in the same execution.
\<close>

theorem short_outage_silent:
  assumes rule: "sint (min_r r) \<le> 153722867"
      and start: "\<not> scheduled am r" "tasksFor (Id_r r) am = []"
      and host: "FindAllRecords app ''alerts'' [(''system'', Id_s old), (''name'', ''Status'')] = Inr recs"
                "filter (\<lambda>x. Id_r x = Id_r r) recs = [r]"
      and down: "status old = ''up''"
      and between: "\<forall>ev \<in> set evsA. foreignTo app (Id_r r) ev"
                   "\<forall>t. WorkerReceive t \<in> set evsA \<longrightarrow> T0 \<le> t"
                   "\<forall>t. SweepTick t \<in> set evsA \<longrightarrow> t \<le> U"
      and received: "scheduled (run app (StatusChange T0 ''down'' old # evsA) am) r"
      and short: "U < T0 + (max 1 (sint (min_r r)) * 60000000000 + 10000000000)"
      and after: "\<forall>ev \<in> set evsB. foreignTo app (Id_r r) ev"
      and timely: "cancelledInTime app (Id_r r)
                     (T0 + (max 1 (sint (min_r r)) * 60000000000 + 10000000000)) evsB
                     (run app (StatusChange T0 ''down'' old # evsA
                               @ [StatusChange U ''up'' (old\<lparr>status := ''down''\<rparr>)]) am)"
  shows "\<not> firesFor app (Id_r r)
             (StatusChange T0 ''down'' old # evsA
              @ StatusChange U ''up'' (old\<lparr>status := ''down''\<rparr>) # evsB) am
     \<and> sent (applyEvent app (SweepTick t) am') =
         (if stopped am' then sent am'
          else sent am' @ concat (map (\<lambda>(key, info).
                   case resolvedUser app (alertRecord_i info) of
                     None \<Rightarrow> []
                   | Some u \<Rightarrow> [statusMessage app ''down'' (systemName_i info) u])
                 (expired t am')))
     \<and> (\<exists>new. sent (applyEvent app ev am') = sent am' @ new
           \<and> ((\<exists>m \<in> set new. isDownNotice m) \<longrightarrow> (\<exists>t. ev = SweepTick t \<and> \<not> stopped am')))"
proof -
  let ?key = "Id_r r"
  let ?D = "T0 + (max 1 (sint (min_r r)) * 60000000000 + 10000000000)"
  let ?dn = "StatusChange T0 ''down'' old"
  let ?up = "StatusChange U ''up'' (old\<lparr>status := ''down''\<rparr>)"
  have rs: "getSystemStatusAlerts app (Id_s old) = Inr recs"
    using host(1) by (simp add: getSystemStatusAlerts_def)
  have dl: "?D \<le> T0 + sint (delayToNotification r)"
    using sint_delayToNotification [OF rule] by simp
  have a0: "downPhase r T0 ?D (applyEvent app ?dn am)"
    using start down rs host(2) dl by (rule downPhase_begin)
  have sw: "\<forall>t. SweepTick t \<in> set evsA \<longrightarrow> t \<le> ?D"
    using between(3) short by fastforce
  have a1: "downPhase r T0 ?D (run app evsA (applyEvent app ?dn am))
            \<and> \<not> firesFor app ?key evsA (applyEvent app ?dn am)"
    using a0 between(1,2) sw by (rule downPhase_run)
  have sc: "scheduled (run app evsA (applyEvent app ?dn am)) r"
    using received by simp
  have rs': "getSystemStatusAlerts app (Id_s (old\<lparr>status := ''down''\<rparr>)) = Inr recs"
    using rs by simp
  have b0: "upPhase r ?D (applyEvent app ?up (run app evsA (applyEvent app ?dn am)))"
    using a1 sc _ rs' host(2) by (rule upPhase_begin [OF conjunct1]) simp
  have st: "run app (?dn # evsA @ [?up]) am = applyEvent app ?up (run app evsA (applyEvent app ?dn am))"
    by (simp add: run_append)
  have b1: "\<not> firesFor app ?key evsB (applyEvent app ?up (run app evsA (applyEvent app ?dn am)))"
    using b0 after timely unfolding st by (rule upPhase_run)
  have "\<not> firesFor app ?key (?dn # evsA @ ?up # evsB) am"
    using a1 b1 by (simp add: firesFor_append)
  then show ?thesis
    using processTick_sent [of app t am'] applyEvent_down_only [of app ev am'] by blast
qed


text \<open>
  C7 (as stated, refuted). An up-transition that comes in time does not by itself keep
  the "down" notification from being sent. Times are in nanoseconds. The rule "rule1" of
  "sys1" has a minimum of 5 minutes, so that its alert expires 310 s after the worker
  has received the schedule task. The worker calls \<open>sendStatusAlert\<close> from inside its
  loop, so while a delivery lasts it receives nothing; when it returns to \<open>select\<close> with
  both a tick and a task ready, either may be taken.

  \<^item> The cancel task is received too late. "sys1" goes down at 0 and the worker receives
    the schedule task at once. The host comes back at 299 s, which queues the cancel
    task. The worker next handles the tick, at 312 s, and only then the cancel task: the
    sweep finds the alert expired and sends "down", for an outage of 4 min 59 s.

  \<^item> The up-transition overtakes the schedule task. "sys1" goes down at 0 and comes back
    at 20 s, before the worker has received the schedule task: the up-transition finds
    no pending alert, sends "up" and queues no cancel task. The worker receives the
    schedule task at 21 s, and the sweep at 338 s sends "down".

  \<^item> An alert left pending by an earlier outage. After the first three events of the
    execution above, "rule1" has a pending alert that expires at 331 s. "sys1" goes down
    again at 100 s: nothing is queued, because the rule has a pending alert already. The
    sweep at 338 s sends "down", and the host comes back at 340 s, for an outage of
    4 minutes.

  \<^item> A delay that wraps around. The rule "ruleC" of "sys4" has a minimum of 153722868
    minutes: its delay in nanoseconds does not fit the 64-bit duration and comes out
    negative, so that the first sweep after the schedule task, at 13 s, sends "down";
    the host comes back at 20 s.
\<close>

theorem late_cancel_counterexample:
  "chronological
     [StatusChange 0 ''down'' (sys1 ''up''), WorkerReceive 0,
      StatusChange 299000000000 ''up'' (sys1 ''down''),
      SweepTick 312000000000, WorkerReceive 312000000000]
   \<and> (299000000000 :: int) < 0 + (max 1 (sint (min_r rule1)) * 60000000000 + 10000000000)
   \<and> firesFor exampleApp (Id_r rule1)
       [StatusChange 0 ''down'' (sys1 ''up''), WorkerReceive 0,
        StatusChange 299000000000 ''up'' (sys1 ''down''),
        SweepTick 312000000000, WorkerReceive 312000000000] NewAlertManager
   \<and> sent (run exampleApp
       [StatusChange 0 ''down'' (sys1 ''up''), WorkerReceive 0,
        StatusChange 299000000000 ''up'' (sys1 ''down''),
        SweepTick 312000000000, WorkerReceive 312000000000] NewAlertManager)
     = [\<lparr>UserID = ''user1'', Title = ''Connection to web is down '' @ downEmoji,
         Message = ''Connection to web is down '', Link = ''http://hub/system/web'',
         LinkText = ''View web''\<rparr>]
   \<and> chronological
     [StatusChange 0 ''down'' (sys1 ''up''), StatusChange 20000000000 ''up'' (sys1 ''down''),
      WorkerReceive 21000000000, SweepTick 338000000000]
   \<and> (20000000000 :: int) < 0 + (max 1 (sint (min_r rule1)) * 60000000000 + 10000000000)
   \<and> firesFor exampleApp (Id_r rule1)
       [StatusChange 0 ''down'' (sys1 ''up''), StatusChange 20000000000 ''up'' (sys1 ''down''),
        WorkerReceive 21000000000, SweepTick 338000000000] NewAlertManager
   \<and> sent (run exampleApp
       [StatusChange 0 ''down'' (sys1 ''up''), StatusChange 20000000000 ''up'' (sys1 ''down''),
        WorkerReceive 21000000000, SweepTick 338000000000] NewAlertManager)
     = [\<lparr>UserID = ''user1'', Title = ''Connection to web is up '' @ upEmoji,
         Message = ''Connection to web is up '', Link = ''http://hub/system/web'',
         LinkText = ''View web''\<rparr>,
        \<lparr>UserID = ''user1'', Title = ''Connection to web is down '' @ downEmoji,
         Message = ''Connection to web is down '', Link = ''http://hub/system/web'',
         LinkText = ''View web''\<rparr>]
   \<and> chronological
     [StatusChange 0 ''down'' (sys1 ''up''), StatusChange 20000000000 ''up'' (sys1 ''down''),
      WorkerReceive 21000000000,
      StatusChange 100000000000 ''down'' (sys1 ''up''), SweepTick 338000000000,
      StatusChange 340000000000 ''up'' (sys1 ''down'')]
   \<and> (340000000000 :: int) < 100000000000 + (max 1 (sint (min_r rule1)) * 60000000000 + 10000000000)
   \<and> scheduled (run exampleApp
       [StatusChange 0 ''down'' (sys1 ''up''), StatusChange 20000000000 ''up'' (sys1 ''down''),
        WorkerReceive 21000000000] NewAlertManager) rule1
   \<and> firesFor exampleApp (Id_r rule1)
       [StatusChange 100000000000 ''down'' (sys1 ''up''), SweepTick 338000000000,
        StatusChange 340000000000 ''up'' (sys1 ''down'')]
       (run exampleApp
          [StatusChange 0 ''down'' (sys1 ''up''), StatusChange 20000000000 ''up'' (sys1 ''down''),
           WorkerReceive 21000000000] NewAlertManager)
   \<and> sent (run exampleApp
       [StatusChange 0 ''down'' (sys1 ''up''), StatusChange 20000000000 ''up'' (sys1 ''down''),
        WorkerReceive 21000000000,
        StatusChange 100000000000 ''down'' (sys1 ''up''), SweepTick 338000000000,
        StatusChange 340000000000 ''up'' (sys1 ''down'')] NewAlertManager)
     = [\<lparr>UserID = ''user1'', Title = ''Connection to web is up '' @ upEmoji,
         Message = ''Connection to web is up '', Link = ''http://hub/system/web'',
         LinkText = ''View web''\<rparr>,
        \<lparr>UserID = ''user1'', Title = ''Connection to web is down '' @ downEmoji,
         Message = ''Connection to web is down '', Link = ''http://hub/system/web'',
         LinkText = ''View web''\<rparr>,
        \<lparr>UserID = ''user1'', Title = ''Connection to web is up '' @ upEmoji,
         Message = ''Connection to web is up '', Link = ''http://hub/system/web'',
         LinkText = ''View web''\<rparr>]
   \<and> chronological
     [StatusChange 0 ''down'' (sys4 ''up''), WorkerReceive 0, SweepTick 13000000000,
      StatusChange 20000000000 ''up'' (sys4 ''down'')]
   \<and> (20000000000 :: int) < 0 + (max 1 (sint (min_r ruleC)) * 60000000000 + 10000000000)
   \<and> firesFor longRuleApp (Id_r ruleC)
       [StatusChange 0 ''down'' (sys4 ''up''), WorkerReceive 0, SweepTick 13000000000,
        StatusChange 20000000000 ''up'' (sys4 ''down'')] NewAlertManager
   \<and> sent (run longRuleApp
       [StatusChange 0 ''down'' (sys4 ''up''), WorkerReceive 0, SweepTick 13000000000,
        StatusChange 20000000000 ''up'' (sys4 ''down'')] NewAlertManager)
     = [\<lparr>UserID = ''userC'', Title = ''Connection to backup is down '' @ downEmoji,
         Message = ''Connection to backup is down '', Link = ''http://hub/system/backup'',
         LinkText = ''View backup''\<rparr>,
        \<lparr>UserID = ''userC'', Title = ''Connection to backup is up '' @ upEmoji,
         Message = ''Connection to backup is up '', Link = ''http://hub/system/backup'',
         LinkText = ''View backup''\<rparr>]"
proof -
  have c1: "chronological
     [StatusChange 0 ''down'' (sys1 ''up''), WorkerReceive 0,
      StatusChange 299000000000 ''up'' (sys1 ''down''),
      SweepTick 312000000000, WorkerReceive 312000000000]"
    by (simp add: chronological_def List.map_filter_simps)
  have c2: "chronological
     [StatusChange 0 ''down'' (sys1 ''up''), StatusChange 20000000000 ''up'' (sys1 ''down''),
      WorkerReceive 21000000000, SweepTick 338000000000]"
    by (simp add: chronological_def List.map_filter_simps)
  have d1: "(299000000000 :: int) < 0 + (max 1 (sint (min_r rule1)) * 60000000000 + 10000000000)"
    and d2: "(20000000000 :: int) < 0 + (max 1 (sint (min_r rule1)) * 60000000000 + 10000000000)"
    by (simp_all add: rule1_def)
  have f1: "firesFor exampleApp (Id_r rule1)
       [StatusChange 0 ''down'' (sys1 ''up''), WorkerReceive 0,
        StatusChange 299000000000 ''up'' (sys1 ''down''),
        SweepTick 312000000000, WorkerReceive 312000000000] NewAlertManager"
    by (simp add: alert_eval exampleApp_def sys1_def rule1_def)
  have s1: "sent (run exampleApp
       [StatusChange 0 ''down'' (sys1 ''up''), WorkerReceive 0,
        StatusChange 299000000000 ''up'' (sys1 ''down''),
        SweepTick 312000000000, WorkerReceive 312000000000] NewAlertManager)
     = [\<lparr>UserID = ''user1'', Title = ''Connection to web is down '' @ downEmoji,
         Message = ''Connection to web is down '', Link = ''http://hub/system/web'',
         LinkText = ''View web''\<rparr>]"
    by (simp add: alert_eval exampleApp_def sys1_def rule1_def)
  have f2: "firesFor exampleApp (Id_r rule1)
       [StatusChange 0 ''down'' (sys1 ''up''), StatusChange 20000000000 ''up'' (sys1 ''down''),
        WorkerReceive 21000000000, SweepTick 338000000000] NewAlertManager"
    by (simp add: alert_eval exampleApp_def sys1_def rule1_def)
  have s2: "sent (run exampleApp
       [StatusChange 0 ''down'' (sys1 ''up''), StatusChange 20000000000 ''up'' (sys1 ''down''),
        WorkerReceive 21000000000, SweepTick 338000000000] NewAlertManager)
     = [\<lparr>UserID = ''user1'', Title = ''Connection to web is up '' @ upEmoji,
         Message = ''Connection to web is up '', Link = ''http://hub/system/web'',
         LinkText = ''View web''\<rparr>,
        \<lparr>UserID = ''user1'', Title = ''Connection to web is down '' @ downEmoji,
         Message = ''Connection to web is down '', Link = ''http://hub/system/web'',
         LinkText = ''View web''\<rparr>]"
    by (simp add: alert_eval exampleApp_def sys1_def rule1_def)
  have c3: "chronological
     [StatusChange 0 ''down'' (sys1 ''up''), StatusChange 20000000000 ''up'' (sys1 ''down''),
      WorkerReceive 21000000000,
      StatusChange 100000000000 ''down'' (sys1 ''up''), SweepTick 338000000000,
      StatusChange 340000000000 ''up'' (sys1 ''down'')]"
    by (simp add: chronological_def List.map_filter_simps)
  have d3: "(340000000000 :: int) < 100000000000 + (max 1 (sint (min_r rule1)) * 60000000000 + 10000000000)"
    by (simp add: rule1_def)
  have p3: "scheduled (run exampleApp
       [StatusChange 0 ''down'' (sys1 ''up''), StatusChange 20000000000 ''up'' (sys1 ''down''),
        WorkerReceive 21000000000] NewAlertManager) rule1"
    by (simp add: alert_eval exampleApp_def sys1_def rule1_def)
  have f3: "firesFor exampleApp (Id_r rule1)
       [StatusChange 100000000000 ''down'' (sys1 ''up''), SweepTick 338000000000,
        StatusChange 340000000000 ''up'' (sys1 ''down'')]
       (run exampleApp
          [StatusChange 0 ''down'' (sys1 ''up''), StatusChange 20000000000 ''up'' (sys1 ''down''),
           WorkerReceive 21000000000] NewAlertManager)"
    by (simp add: alert_eval exampleApp_def sys1_def rule1_def)
  have s3: "sent (run exampleApp
       [StatusChange 0 ''down'' (sys1 ''up''), StatusChange 20000000000 ''up'' (sys1 ''down''),
        WorkerReceive 21000000000,
        StatusChange 100000000000 ''down'' (sys1 ''up''), SweepTick 338000000000,
        StatusChange 340000000000 ''up'' (sys1 ''down'')] NewAlertManager)
     = [\<lparr>UserID = ''user1'', Title = ''Connection to web is up '' @ upEmoji,
         Message = ''Connection to web is up '', Link = ''http://hub/system/web'',
         LinkText = ''View web''\<rparr>,
        \<lparr>UserID = ''user1'', Title = ''Connection to web is down '' @ downEmoji,
         Message = ''Connection to web is down '', Link = ''http://hub/system/web'',
         LinkText = ''View web''\<rparr>,
        \<lparr>UserID = ''user1'', Title = ''Connection to web is up '' @ upEmoji,
         Message = ''Connection to web is up '', Link = ''http://hub/system/web'',
         LinkText = ''View web''\<rparr>]"
    by (simp add: alert_eval exampleApp_def sys1_def rule1_def)
  have c4: "chronological
     [StatusChange 0 ''down'' (sys4 ''up''), WorkerReceive 0, SweepTick 13000000000,
      StatusChange 20000000000 ''up'' (sys4 ''down'')]"
    by (simp add: chronological_def List.map_filter_simps)
  have d4: "(20000000000 :: int) < 0 + (max 1 (sint (min_r ruleC)) * 60000000000 + 10000000000)"
    by (simp add: ruleC_def)
  have f4: "firesFor longRuleApp (Id_r ruleC)
       [StatusChange 0 ''down'' (sys4 ''up''), WorkerReceive 0, SweepTick 13000000000,
        StatusChange 20000000000 ''up'' (sys4 ''down'')] NewAlertManager"
    by (simp add: alert_eval longRuleApp_def sys4_def ruleC_def)
  have s4: "sent (run longRuleApp
       [StatusChange 0 ''down'' (sys4 ''up''), WorkerReceive 0, SweepTick 13000000000,
        StatusChange 20000000000 ''up'' (sys4 ''down'')] NewAlertManager)
     = [\<lparr>UserID = ''userC'', Title = ''Connection to backup is down '' @ downEmoji,
         Message = ''Connection to backup is down '', Link = ''http://hub/system/backup'',
         LinkText = ''View backup''\<rparr>,
        \<lparr>UserID = ''userC'', Title = ''Connection to backup is up '' @ upEmoji,
         Message = ''Connection to backup is up '', Link = ''http://hub/system/backup'',
         LinkText = ''View backup''\<rparr>]"
    by (simp add: alert_eval longRuleApp_def sys4_def ruleC_def)
  show ?thesis using c1 d1 f1 s1 c2 d2 f2 s2 c3 d3 p3 f3 s3 c4 d4 f4 s4 by (intro conjI)
qed


text \<open>
  An instance: "sys3" has the rules "ruleA" of 1 minute and "ruleB" of 5 minutes. It goes
  down at 0, the worker receives both schedule tasks, the sweep at 78 s sends the "down"
  notification of "ruleA", and the host comes back at 180 s: the up-transition sends "up"
  for "ruleA" and queues the cancel task of "ruleB", which the worker receives at 183 s.
  No sweep finds the alert of "ruleB" expired, and the two notifications of "ruleA" are
  all that is sent.
\<close>

theorem short_outage_silent_witness:
  "\<not> firesFor twoRuleApp ''ruleB''
       [StatusChange 0 ''down'' (sys3 ''up''), WorkerReceive 0, WorkerReceive 0,
        SweepTick 13000000000, SweepTick 78000000000,
        StatusChange 180000000000 ''up'' (sys3 ''down''),
        SweepTick 182000000000, WorkerReceive 183000000000, SweepTick 312000000000]
       NewAlertManager
   \<and> sent (run twoRuleApp
       [StatusChange 0 ''down'' (sys3 ''up''), WorkerReceive 0, WorkerReceive 0,
        SweepTick 13000000000, SweepTick 78000000000,
        StatusChange 180000000000 ''up'' (sys3 ''down''),
        SweepTick 182000000000, WorkerReceive 183000000000, SweepTick 312000000000]
       NewAlertManager)
     = [\<lparr>UserID = ''userA'', Title = ''Connection to mail is down '' @ downEmoji,
         Message = ''Connection to mail is down '', Link = ''http://hub/system/mail'',
         LinkText = ''View mail''\<rparr>,
        \<lparr>UserID = ''userA'', Title = ''Connection to mail is up '' @ upEmoji,
         Message = ''Connection to mail is up '', Link = ''http://hub/system/mail'',
         LinkText = ''View mail''\<rparr>]"
proof -
  let ?evsA = "[WorkerReceive 0, WorkerReceive 0, SweepTick 13000000000, SweepTick 78000000000]"
  let ?evsB = "[SweepTick 182000000000, WorkerReceive 183000000000, SweepTick 312000000000]"
  have h1: "sint (min_r ruleB) \<le> 153722867" by (simp add: ruleB_def)
  have h2: "\<not> scheduled NewAlertManager ruleB" "tasksFor (Id_r ruleB) NewAlertManager = []"
    by (simp_all add: scheduled_def tasksFor_def NewAlertManager_def)
  have h3: "FindAllRecords twoRuleApp ''alerts'' [(''system'', Id_s (sys3 ''up'')), (''name'', ''Status'')]
              = Inr [ruleA, ruleB]"
    by (simp add: twoRuleApp_def sys3_def)
  have h4: "filter (\<lambda>x. Id_r x = Id_r ruleB) [ruleA, ruleB] = [ruleB]"
    by (simp add: ruleA_def ruleB_def)
  have h5: "status (sys3 ''up'') = ''up''" by (simp add: sys3_def)
  have h6: "\<forall>ev \<in> set ?evsA. foreignTo twoRuleApp (Id_r ruleB) ev"
    "\<forall>t. WorkerReceive t \<in> set ?evsA \<longrightarrow> 0 \<le> t"
    "\<forall>t. SweepTick t \<in> set ?evsA \<longrightarrow> t \<le> 180000000000"
    by auto
  have h7: "scheduled (run twoRuleApp (StatusChange 0 ''down'' (sys3 ''up'') # ?evsA) NewAlertManager) ruleB"
    by (simp add: alert_eval twoRuleApp_def sys3_def ruleA_def ruleB_def)
  have h8: "(180000000000 :: int) < 0 + (max 1 (sint (min_r ruleB)) * 60000000000 + 10000000000)"
    by (simp add: ruleB_def)
  have h9: "\<forall>ev \<in> set ?evsB. foreignTo twoRuleApp (Id_r ruleB) ev" by simp
  have h10: "cancelledInTime twoRuleApp (Id_r ruleB)
               (0 + (max 1 (sint (min_r ruleB)) * 60000000000 + 10000000000)) ?evsB
               (run twoRuleApp (StatusChange 0 ''down'' (sys3 ''up'') # ?evsA
                                @ [StatusChange 180000000000 ''up'' ((sys3 ''up'')\<lparr>status := ''down''\<rparr>)])
                  NewAlertManager)"
    by (simp add: alert_eval twoRuleApp_def sys3_def ruleA_def ruleB_def)
  have n: "\<not> firesFor twoRuleApp (Id_r ruleB)
             (StatusChange 0 ''down'' (sys3 ''up'') # ?evsA
              @ StatusChange 180000000000 ''up'' ((sys3 ''up'')\<lparr>status := ''down''\<rparr>) # ?evsB)
             NewAlertManager"
    using short_outage_silent [OF h1 h2 h3 h4 h5 h6 h7 h8 h9 h10] by (rule conjunct1)
  have k: "Id_r ruleB = ''ruleB''" by (simp add: ruleB_def)
  have y: "(sys3 ''up'')\<lparr>status := ''down''\<rparr> = sys3 ''down''" by (simp add: sys3_def)
  have l: "StatusChange 0 ''down'' (sys3 ''up'') # ?evsA
              @ StatusChange 180000000000 ''up'' (sys3 ''down'') # ?evsB
         = [StatusChange 0 ''down'' (sys3 ''up''), WorkerReceive 0, WorkerReceive 0,
            SweepTick 13000000000, SweepTick 78000000000,
            StatusChange 180000000000 ''up'' (sys3 ''down''),
            SweepTick 182000000000, WorkerReceive 183000000000, SweepTick 312000000000]"
    by simp
  have s: "sent (run twoRuleApp
       [StatusChange 0 ''down'' (sys3 ''up''), WorkerReceive 0, WorkerReceive 0,
        SweepTick 13000000000, SweepTick 78000000000,
        StatusChange 180000000000 ''up'' (sys3 ''down''),
        SweepTick 182000000000, WorkerReceive 183000000000, SweepTick 312000000000]
       NewAlertManager)
     = [\<lparr>UserID = ''userA'', Title = ''Connection to mail is down '' @ downEmoji,
         Message = ''Connection to mail is down '', Link = ''http://hub/system/mail'',
         LinkText = ''View mail''\<rparr>,
        \<lparr>UserID = ''userA'', Title = ''Connection to mail is up '' @ upEmoji,
         Message = ''Connection to mail is up '', Link = ''http://hub/system/mail'',
         LinkText = ''View mail''\<rparr>]"
    by (simp add: alert_eval twoRuleApp_def sys3_def ruleA_def ruleB_def)
  show ?thesis using n [unfolded k y l] s by (rule conjI)
qed

end
